theory Spec2Isabelle
  imports Complex_Main "HOL-Library.AList" "HOL-Library.List_Lexorder" "HOL-Library.Char_ord"
begin

section \<open>The surroundings of the demo driver\<close>

text \<open>
  The driver of \<^verbatim>\<open>demo-app.js\<close> talks to three things that are not code of the
  repository: the object store behind the MinIO client, the local file system and the
  random generator of the faker library. They are modelled as an explicit \<open>world\<close>
  (the state they hold) and an explicit \<open>env\<close> (the choices they make: which call
  fails when, which random values are drawn). Every call the driver issues is written
  to a trace, with its outcome, in the order the driver issues it.
\<close>

record statement =
  Effect :: string
  Principal_AWS :: "string list"
  Action :: "string list"
  Resource :: "string list"

record policy =
  Version :: string
  Statement :: "statement list"

datatype call =
    BucketExists string
  | MakeBucket string string
  | SetBucketPolicy string policy
  | FPutObject string string string
  | ListObjects string string bool
  | FGetObject string string string
  | GetBucketPolicy string
  | GetObject string string
  | GetBucketLocation string
  | WriteFileSync string string
  | StatSync string
  | UnlinkSync string
  | Sleep nat

datatype error = CallFailed call

datatype msg =
    MsgStarting
  | MsgRule
  | MsgChecking string
  | MsgCreating string
  | MsgCreated string
  | MsgAlreadyExists string
  | MsgPolicySet string
  | WarnPolicy error
  | ErrBucketOps error
  | MsgGenerating nat
  | MsgFileLine nat string nat
  | MsgBlank
  | MsgUploading string nat
  | MsgUploaded string
  | MsgDeletedLocal string
  | ErrUploading string error
  | MsgDownloading string
  | MsgDownloaded string string
  | ErrDownloading string error
  | MsgListing string
  | MsgObjectLine string nat
  | MsgAdditional
  | MsgBucketInfo
  | MsgRetrievedPolicy
  | WarnNoPolicy
  | MsgListingParams
  | MsgFoundPrefix nat
  | MsgAttempted404
  | MsgLocation
  | WarnNoLocation
  | ErrAdditional error
  | MsgCompleted
  | MsgHintDashboard
  | MsgHintAudit
  | MsgHintLog
  | MsgHintConsole
  | ErrDemoFailed error
  | WarnDeleteLocal string error

datatype event = Done call | Failed call | Print msg

record world =
  buckets :: "string \<rightharpoonup> (string \<times> string) list"
  policies :: "string \<rightharpoonup> policy"
  disk :: "string \<rightharpoonup> string"
  trace :: "event list"
  draws :: nat

record env =
  fails :: "call \<Rightarrow> nat \<Rightarrow> bool"
  rand_nat :: "nat \<Rightarrow> nat"
  rand_fileName :: "nat \<Rightarrow> string"
  rand_paragraphs :: "nat \<Rightarrow> nat \<Rightarrow> string"

text \<open>
  \<open>possible c w\<close>: the state lets the call \<open>c\<close> succeed (a file that is not there
  cannot be read or deleted, an object that is not there cannot be fetched);
  \<open>effect c w\<close>: what a successful call changes.
\<close>

fun has_object :: "(string \<times> string) list option \<Rightarrow> string \<Rightarrow> bool" where
  "has_object None k = False"
| "has_object (Some os) k = (map_of os k \<noteq> None)"

fun possible :: "call \<Rightarrow> world \<Rightarrow> bool" where
  "possible (BucketExists b) w = True"
| "possible (MakeBucket b r) w = (buckets w b = None)"
| "possible (SetBucketPolicy b p) w = (buckets w b \<noteq> None)"
| "possible (FPutObject b k p) w = (buckets w b \<noteq> None \<and> disk w p \<noteq> None)"
| "possible (ListObjects b pre r) w = (buckets w b \<noteq> None)"
| "possible (FGetObject b k p) w = has_object (buckets w b) k"
| "possible (GetBucketPolicy b) w = (buckets w b \<noteq> None \<and> policies w b \<noteq> None)"
| "possible (GetObject b k) w = has_object (buckets w b) k"
| "possible (GetBucketLocation b) w = (buckets w b \<noteq> None)"
| "possible (WriteFileSync p c) w = True"
| "possible (StatSync p) w = (disk w p \<noteq> None)"
| "possible (UnlinkSync p) w = (disk w p \<noteq> None)"
| "possible (Sleep n) w = True"

fun effect :: "call \<Rightarrow> world \<Rightarrow> world" where
  "effect (MakeBucket b r) w = w\<lparr>buckets := (buckets w)(b \<mapsto> [])\<rparr>"
| "effect (SetBucketPolicy b p) w = w\<lparr>policies := (policies w)(b \<mapsto> p)\<rparr>"
| "effect (FPutObject b k p) w =
     (case buckets w b of
        None \<Rightarrow> w
      | Some os \<Rightarrow>
          (case disk w p of
             None \<Rightarrow> w
           | Some c \<Rightarrow> w\<lparr>buckets := (buckets w)(b \<mapsto> AList.update k c os)\<rparr>))"
| "effect (FGetObject b k p) w =
     (case buckets w b of
        None \<Rightarrow> w
      | Some os \<Rightarrow>
          (case map_of os k of
             None \<Rightarrow> w
           | Some c \<Rightarrow> w\<lparr>disk := (disk w)(p \<mapsto> c)\<rparr>))"
| "effect (WriteFileSync p c) w = w\<lparr>disk := (disk w)(p \<mapsto> c)\<rparr>"
| "effect (UnlinkSync p) w = w\<lparr>disk := (disk w)(p := None)\<rparr>"
| "effect c w = w"

definition print :: "msg \<Rightarrow> world \<Rightarrow> world" where
  "print m w = w\<lparr>trace := trace w @ [Print m]\<rparr>"

text \<open>
  A call fails when the environment makes it fail at this moment (the moment is the
  number of events so far, so the same call can succeed once and fail later) or when
  the state does not allow it. A failed call leaves the state as it was.
\<close>

definition invoke :: "env \<Rightarrow> call \<Rightarrow> world \<Rightarrow> bool \<times> world" where
  "invoke env c w =
     (if fails env c (length (trace w)) \<or> \<not> possible c w
      then (False, w\<lparr>trace := trace w @ [Failed c]\<rparr>)
      else (True, (effect c w)\<lparr>trace := trace (effect c w) @ [Done c]\<rparr>))"

subsection \<open>Awaited calls, exceptions, try and catch\<close>

datatype 'a result = Return 'a | Throw error

type_synonym 'a io = "world \<Rightarrow> 'a result \<times> world"

definition ret :: "'a \<Rightarrow> 'a io" where
  "ret x w = (Return x, w)"

definition throw :: "error \<Rightarrow> 'a io" where
  "throw e w = (Throw e, w)"

definition bind :: "'a io \<Rightarrow> ('a \<Rightarrow> 'b io) \<Rightarrow> 'b io" where
  "bind m f w =
     (case m w of
        (Return x, w') \<Rightarrow> f x w'
      | (Throw e, w') \<Rightarrow> (Throw e, w'))"

definition catch :: "'a io \<Rightarrow> (error \<Rightarrow> 'a io) \<Rightarrow> 'a io" where
  "catch m h w =
     (case m w of
        (Return x, w') \<Rightarrow> (Return x, w')
      | (Throw e, w') \<Rightarrow> h e w')"

definition say :: "msg \<Rightarrow> unit io" where
  "say m w = (Return (), print m w)"

definition say_all :: "msg list \<Rightarrow> unit io" where
  "say_all ms w = (Return (), w\<lparr>trace := trace w @ map Print ms\<rparr>)"

definition call :: "env \<Rightarrow> call \<Rightarrow> unit io" where
  "call env c w =
     (case invoke env c w of
        (True, w') \<Rightarrow> (Return (), w')
      | (False, w') \<Rightarrow> (Throw (CallFailed c), w'))"

definition sleep :: "nat \<Rightarrow> unit io" where
  "sleep ms w = (Return (), w\<lparr>trace := trace w @ [Done (Sleep ms)]\<rparr>)"

subsection \<open>The calls that return a value\<close>

definition bucketExists :: "env \<Rightarrow> string \<Rightarrow> bool io" where
  "bucketExists env b w = bind (call env (BucketExists b)) (\<lambda>_. ret (buckets w b \<noteq> None)) w"

definition statSync :: "env \<Rightarrow> string \<Rightarrow> nat io" where
  "statSync env p w =
     bind (call env (StatSync p)) (\<lambda>_. ret (case disk w p of None \<Rightarrow> 0 | Some c \<Rightarrow> length c)) w"

text \<open>
  What a listing of a bucket delivers for a prefix. The store holds one object under a
  key (\<open>clearjunk\<close>) and delivers the objects in ascending order of their keys, each
  with its size. A listing that is not recursive stops at the delimiter \<^verbatim>\<open>/\<close>: a key
  with a delimiter after the prefix is not delivered itself; the keys that agree up to
  that delimiter are delivered together as one entry, of size 0, for their common
  prefix, after the objects. (The driver prints the entries of its recursive listing and
  only counts those of the other one.)
\<close>

definition below_delimiter :: "string \<Rightarrow> string \<Rightarrow> bool" where
  "below_delimiter pre k = (CHR ''/'' \<in> set (drop (length pre) k))"

definition common_prefix :: "string \<Rightarrow> string \<Rightarrow> string" where
  "common_prefix pre k = pre @ takeWhile (\<lambda>c. c \<noteq> CHR ''/'') (drop (length pre) k) @ ''/''"

definition listing :: "string \<Rightarrow> string \<Rightarrow> bool \<Rightarrow> world \<Rightarrow> (string \<times> nat) list" where
  "listing b pre r w =
     (case buckets w b of
        None \<Rightarrow> []
      | Some os \<Rightarrow>
          (let found = sort_key fst
                 (filter (\<lambda>(k, c). take (length pre) k = pre) (AList.clearjunk os))
           in if r
              then map (\<lambda>(k, c). (k, length c)) found
              else map (\<lambda>(k, c). (k, length c))
                     (filter (\<lambda>(k, c). \<not> below_delimiter pre k) found)
                   @ map (\<lambda>p. (p, 0))
                       (remdups (map (\<lambda>(k, c). common_prefix pre k)
                          (filter (\<lambda>(k, c). below_delimiter pre k) found)))))"

definition listObjects_stream :: "env \<Rightarrow> string \<Rightarrow> string \<Rightarrow> bool \<Rightarrow> (string \<times> nat) list io" where
  "listObjects_stream env b pre r w =
     bind (call env (ListObjects b pre r)) (\<lambda>_. ret (listing b pre r w)) w"

subsection \<open>The faker library and \<^verbatim>\<open>path.join\<close>\<close>

text \<open>
  \<^verbatim>\<open>faker.number.int({min, max})\<close> returns an integer between \<open>min\<close> and \<open>max\<close>,
  both included: the raw number of the environment is reduced into that range, so every
  value of the range can be drawn and no other. The file name and the lorem text are
  whatever the environment draws.
\<close>

definition faker_number_int :: "env \<Rightarrow> nat \<Rightarrow> nat \<Rightarrow> nat io" where
  "faker_number_int env lo hi w =
     (Return (lo + rand_nat env (draws w) mod (hi - lo + 1)), w\<lparr>draws := draws w + 1\<rparr>)"

definition faker_system_fileName :: "env \<Rightarrow> string io" where
  "faker_system_fileName env w = (Return (rand_fileName env (draws w)), w\<lparr>draws := draws w + 1\<rparr>)"

definition faker_lorem_paragraphs :: "env \<Rightarrow> nat \<Rightarrow> string io" where
  "faker_lorem_paragraphs env n w =
     (Return (rand_paragraphs env (draws w) n), w\<lparr>draws := draws w + 1\<rparr>)"

text \<open>\<^verbatim>\<open>Math.ceil(a / b)\<close> on non-negative integers.\<close>

definition math_ceil_div :: "nat \<Rightarrow> nat \<Rightarrow> nat" where
  "math_ceil_div a b = (a + b - 1) div b"

text \<open>\<^verbatim>\<open>path.join(dir, name)\<close> for a relative directory: a leading \<^verbatim>\<open>./\<close> is dropped.\<close>

definition path_join :: "string \<Rightarrow> string \<Rightarrow> string" where
  "path_join dir name = (if take 2 dir = ''./'' then drop 2 dir else dir) @ ''/'' @ name"

section \<open>The driver of demo-app.js\<close>

text \<open>
  The definitions follow \<^verbatim>\<open>demo-app.js\<close> function by function; a
  \<^verbatim>\<open>console.log\<close> or \<^verbatim>\<open>console.error\<close> is a \<open>Print\<close> event. Left out are the
  configuration of the client, the two directories made when the module is loaded, and
  the metadata map handed to \<^verbatim>\<open>fPutObject\<close> (content type, a tag, the size and the
  time of the upload): no property below reads them.
\<close>

definition bucketName :: string where
  "bucketName = ''js-test-bucket''"

definition uploadDir :: string where
  "uploadDir = ''./uploads''"

definition downloadDir :: string where
  "downloadDir = ''./downloads''"

definition policy_doc :: "string \<Rightarrow> policy" where
  "policy_doc b =
     \<lparr>Version = ''2012-10-17'',
      Statement = [\<lparr>Effect = ''Allow'', Principal_AWS = [''*''], Action = [''s3:GetObject''],
                    Resource = [''arn:aws:s3:::'' @ b @ ''/*'']\<rparr>]\<rparr>"

definition createBucketIfNotExists :: "env \<Rightarrow> unit io" where
  "createBucketIfNotExists env =
     catch
       (bind (say (MsgChecking bucketName)) (\<lambda>_.
        bind (bucketExists env bucketName) (\<lambda>exists.
        bind (if \<not> exists
              then bind (say (MsgCreating bucketName)) (\<lambda>_.
                   bind (call env (MakeBucket bucketName ''us-east-1'')) (\<lambda>_.
                   say (MsgCreated bucketName)))
              else say (MsgAlreadyExists bucketName)) (\<lambda>_.
        catch
          (bind (call env (SetBucketPolicy bucketName (policy_doc bucketName))) (\<lambda>_.
           say (MsgPolicySet bucketName)))
          (\<lambda>policyError. say (WarnPolicy policyError))))))
       (\<lambda>error. bind (say (ErrBucketOps error)) (\<lambda>_. throw error))"

record gen_file =
  fileName :: string
  filePath :: string
  size_f :: nat

definition generateRandomFile :: "env \<Rightarrow> gen_file io" where
  "generateRandomFile env =
     bind (faker_system_fileName env) (\<lambda>raw.
     bind (faker_number_int env 1000 50000) (\<lambda>fileSize.
     bind (faker_lorem_paragraphs env (math_ceil_div fileSize 100)) (\<lambda>content.
     bind (call env (WriteFileSync (path_join uploadDir (raw @ ''.txt'')) content)) (\<lambda>_.
     ret \<lparr>fileName = raw @ ''.txt'',
          filePath = path_join uploadDir (raw @ ''.txt''),
          size_f = length content\<rparr>))))"

definition uploadFile :: "env \<Rightarrow> string \<Rightarrow> string \<Rightarrow> nat io" where
  "uploadFile env name path =
     catch
       (bind (statSync env path) (\<lambda>stats_size.
        bind (say (MsgUploading name stats_size)) (\<lambda>_.
        bind (call env (FPutObject bucketName name path)) (\<lambda>_.
        bind (say (MsgUploaded name)) (\<lambda>_.
        bind (call env (UnlinkSync path)) (\<lambda>_.
        bind (say (MsgDeletedLocal name)) (\<lambda>_.
        ret stats_size)))))))
       (\<lambda>error. bind (say (ErrUploading name error)) (\<lambda>_. throw error))"

definition downloadFile :: "env \<Rightarrow> string \<Rightarrow> nat io" where
  "downloadFile env name =
     catch
       (bind (say (MsgDownloading name)) (\<lambda>_.
        bind (call env (FGetObject bucketName name
                          (path_join downloadDir (''downloaded_'' @ name)))) (\<lambda>_.
        bind (say (MsgDownloaded name (path_join downloadDir (''downloaded_'' @ name)))) (\<lambda>_.
        statSync env (path_join downloadDir (''downloaded_'' @ name))))))
       (\<lambda>error. bind (say (ErrDownloading name error)) (\<lambda>_. throw error))"

text \<open>
  \<^verbatim>\<open>listObjects\<close> returns the promise without awaiting it, so its own
  \<^verbatim>\<open>catch\<close> never sees an error of the stream: the rejection reaches the caller
  unlogged. A line is printed for every object the stream delivers.
\<close>

definition listObjects :: "env \<Rightarrow> (string \<times> nat) list io" where
  "listObjects env =
     bind (say (MsgListing bucketName)) (\<lambda>_.
     bind (listObjects_stream env bucketName [] True) (\<lambda>objectsList.
     bind (say_all (map (\<lambda>(name, sz). MsgObjectLine name sz) objectsList)) (\<lambda>_.
     ret objectsList)))"

definition performAdditionalOperations :: "env \<Rightarrow> unit io" where
  "performAdditionalOperations env =
     catch
       (bind (say MsgAdditional) (\<lambda>_.
        bind (say MsgBucketInfo) (\<lambda>_.
        bind (catch
                (bind (call env (GetBucketPolicy bucketName)) (\<lambda>_. say MsgRetrievedPolicy))
                (\<lambda>e. say WarnNoPolicy)) (\<lambda>_.
        bind (say MsgListingParams) (\<lambda>_.
        bind (listObjects_stream env bucketName ''sample'' False) (\<lambda>found.
        bind (say (MsgFoundPrefix (length found))) (\<lambda>_.
        bind (catch
                (call env (GetObject bucketName ''non-existent-file.txt''))
                (\<lambda>error. say MsgAttempted404)) (\<lambda>_.
        catch
          (bind (call env (GetBucketLocation bucketName)) (\<lambda>_. say MsgLocation))
          (\<lambda>e. say WarnNoLocation)))))))))
       (\<lambda>error. say (ErrAdditional error))"

text \<open>The three loops of \<^verbatim>\<open>runDemo\<close>.\<close>

function runDemo_generate :: "env \<Rightarrow> nat \<Rightarrow> nat \<Rightarrow> gen_file list \<Rightarrow> gen_file list io" where
  "runDemo_generate env numFiles i files w =
     (if i < numFiles
      then (case generateRandomFile env w of
              (Throw e, w') \<Rightarrow> (Throw e, w')
            | (Return file, w') \<Rightarrow>
                runDemo_generate env numFiles (i + 1) (files @ [file])
                  (print (MsgFileLine (i + 1) (fileName file) (size_f file)) w'))
      else (Return files, w))"
  by pat_completeness auto
termination
  by (relation "measure (\<lambda>(env, numFiles, i, files, w). numFiles - i)") auto

fun runDemo_upload :: "env \<Rightarrow> gen_file list \<Rightarrow> unit io" where
  "runDemo_upload env [] w = (Return (), w)"
| "runDemo_upload env (file # rest) w =
     (case uploadFile env (fileName file) (filePath file) w of
        (Throw e, w') \<Rightarrow> (Throw e, w')
      | (Return _, w') \<Rightarrow> runDemo_upload env rest (snd (sleep 500 w')))"

fun runDemo_download :: "env \<Rightarrow> gen_file list \<Rightarrow> unit io" where
  "runDemo_download env [] w = (Return (), w)"
| "runDemo_download env (file # rest) w =
     (case downloadFile env (fileName file) w of
        (Throw e, w') \<Rightarrow> (Throw e, w')
      | (Return _, w') \<Rightarrow> runDemo_download env rest (snd (sleep 500 w')))"

definition runDemo_try :: "env \<Rightarrow> unit io" where
  "runDemo_try env =
     bind (say_all [MsgStarting, MsgRule]) (\<lambda>_.
     bind (createBucketIfNotExists env) (\<lambda>_.
     bind (faker_number_int env 1 5) (\<lambda>numFiles.
     bind (say (MsgGenerating numFiles)) (\<lambda>_.
     bind (runDemo_generate env numFiles 0 []) (\<lambda>files.
     bind (say MsgBlank) (\<lambda>_.
     bind (runDemo_upload env files) (\<lambda>_.
     bind (say MsgBlank) (\<lambda>_.
     bind (listObjects env) (\<lambda>_.
     bind (say MsgBlank) (\<lambda>_.
     bind (runDemo_download env (take (min 2 (length files)) files)) (\<lambda>_.
     bind (say MsgBlank) (\<lambda>_.
     bind (performAdditionalOperations env) (\<lambda>_.
     say_all [MsgBlank, MsgCompleted, MsgHintDashboard, MsgHintAudit, MsgHintLog,
              MsgHintConsole])))))))))))))"

text \<open>
  The exit status: \<^verbatim>\<open>process.exit(1)\<close> in the \<^verbatim>\<open>catch\<close> of
  \<^verbatim>\<open>runDemo\<close>, and 0 when the function returns and the process ends by itself.
\<close>

definition runDemo :: "env \<Rightarrow> world \<Rightarrow> nat \<times> world" where
  "runDemo env w =
     (case runDemo_try env w of
        (Return _, w') \<Rightarrow> (0, w')
      | (Throw error, w') \<Rightarrow> (1, print (ErrDemoFailed error) w'))"

section \<open>The sibling driver: the upload of minio\_generate\_sample\_data.go\<close>

text \<open>
  The repository holds the same driver a second time, in Go. Its \<^verbatim>\<open>uploadFile\<close> and
  the upload loop of its \<^verbatim>\<open>runDemo\<close> are modelled here, because they treat a failed
  delete of the local copy differently from \<^verbatim>\<open>demo-app.js\<close>. A returned
  \<^verbatim>\<open>(0, err)\<close> is \<open>Throw\<close>; \<^verbatim>\<open>os.Stat\<close> and \<^verbatim>\<open>os.Remove\<close> are the calls
  \<open>StatSync\<close> and \<open>UnlinkSync\<close>.
\<close>

definition go_bucketName :: string where
  "go_bucketName = ''go-test-bucket''"

definition go_uploadFile :: "env \<Rightarrow> string \<Rightarrow> string \<Rightarrow> nat io" where
  "go_uploadFile env name path =
     bind (statSync env path) (\<lambda>fileInfo_size.
     bind (say (MsgUploading name fileInfo_size)) (\<lambda>_.
     bind (call env (FPutObject go_bucketName name path)) (\<lambda>_.
     bind (say (MsgUploaded name)) (\<lambda>_.
     bind (catch
             (bind (call env (UnlinkSync path)) (\<lambda>_. say (MsgDeletedLocal name)))
             (\<lambda>err. say (WarnDeleteLocal name err))) (\<lambda>_.
     ret fileInfo_size)))))"

fun go_runDemo_upload :: "env \<Rightarrow> string list \<Rightarrow> unit io" where
  "go_runDemo_upload env [] w = (Return (), w)"
| "go_runDemo_upload env (name # rest) w =
     go_runDemo_upload env rest
       (snd (sleep 500
          (snd (catch
                  (bind (go_uploadFile env name (path_join uploadDir name)) (\<lambda>_. ret ()))
                  (\<lambda>err. say (ErrUploading name err)) w))))"

section \<open>What is observed of a run\<close>

subsection \<open>Kinds of calls and of messages\<close>

fun is_bucket_call :: "call \<Rightarrow> bool" where
  "is_bucket_call (BucketExists b) = True"
| "is_bucket_call (MakeBucket b r) = True"
| "is_bucket_call (SetBucketPolicy b p) = True"
| "is_bucket_call c = False"

fun is_write_call :: "call \<Rightarrow> bool" where
  "is_write_call (WriteFileSync p c) = True"
| "is_write_call c = False"

fun is_upload_call :: "call \<Rightarrow> bool" where
  "is_upload_call (StatSync p) = True"
| "is_upload_call (FPutObject b k p) = True"
| "is_upload_call (UnlinkSync p) = True"
| "is_upload_call (Sleep n) = True"
| "is_upload_call c = False"

fun is_list_call :: "call \<Rightarrow> bool" where
  "is_list_call (ListObjects b pre r) = True"
| "is_list_call c = False"

fun is_download_call :: "call \<Rightarrow> bool" where
  "is_download_call (FGetObject b k p) = True"
| "is_download_call (StatSync p) = True"
| "is_download_call (Sleep n) = True"
| "is_download_call c = False"

fun is_probe_call :: "call \<Rightarrow> bool" where
  "is_probe_call (GetBucketPolicy b) = True"
| "is_probe_call (ListObjects b pre r) = True"
| "is_probe_call (GetObject b k) = True"
| "is_probe_call (GetBucketLocation b) = True"
| "is_probe_call c = False"

fun is_fPutObject :: "call \<Rightarrow> bool" where
  "is_fPutObject (FPutObject b k p) = True"
| "is_fPutObject c = False"

fun is_fGetObject :: "call \<Rightarrow> bool" where
  "is_fGetObject (FGetObject b k p) = True"
| "is_fGetObject c = False"

fun is_unlinkSync :: "call \<Rightarrow> bool" where
  "is_unlinkSync (UnlinkSync p) = True"
| "is_unlinkSync c = False"

fun is_getObject :: "call \<Rightarrow> bool" where
  "is_getObject (GetObject b k) = True"
| "is_getObject c = False"

fun moves_local_copy :: "call \<Rightarrow> bool" where
  "moves_local_copy (FPutObject b k p) = True"
| "moves_local_copy (UnlinkSync p) = True"
| "moves_local_copy c = False"

text \<open>The calls that move objects: upload, listing, download.\<close>

fun transfer_call :: "call \<Rightarrow> bool" where
  "transfer_call (FPutObject b k p) = True"
| "transfer_call (ListObjects b pre r) = True"
| "transfer_call (FGetObject b k p) = True"
| "transfer_call c = False"

fun is_transfer :: "event \<Rightarrow> bool" where
  "is_transfer (Done c) = transfer_call c"
| "is_transfer (Failed c) = transfer_call c"
| "is_transfer (Print m) = False"

fun is_object_line :: "msg \<Rightarrow> bool" where
  "is_object_line (MsgObjectLine k s) = True"
| "is_object_line m = False"

definition plain_msg :: "msg \<Rightarrow> bool" where
  "plain_msg m = (\<not> is_object_line m)"

definition any_msg :: "msg \<Rightarrow> bool" where
  "any_msg m = True"

definition no_call :: "call \<Rightarrow> bool" where
  "no_call c = False"

text \<open>
  \<open>adds m C P\<close>: whatever \<open>m\<close> does, it only appends events to the trace; every call
  among them satisfies \<open>C\<close> and every message \<open>P\<close>.
\<close>

fun only :: "(call \<Rightarrow> bool) \<Rightarrow> (msg \<Rightarrow> bool) \<Rightarrow> event \<Rightarrow> bool" where
  "only C P (Done c) = C c"
| "only C P (Failed c) = C c"
| "only C P (Print m) = P m"

definition adds :: "'a io \<Rightarrow> (call \<Rightarrow> bool) \<Rightarrow> (msg \<Rightarrow> bool) \<Rightarrow> bool" where
  "adds m C P =
     (\<forall>w r w'. m w = (r, w') \<longrightarrow> (\<exists>es. trace w' = trace w @ es \<and> list_all (only C P) es))"

text \<open>
  \<open>triple P m Q E\<close>: started in a world with \<open>P\<close>, \<open>m\<close> ends in a world with \<open>Q\<close>
  when it returns and with \<open>E\<close> when it throws.
\<close>

definition triple :: "(world \<Rightarrow> bool) \<Rightarrow> 'a io \<Rightarrow> ('a \<Rightarrow> world \<Rightarrow> bool) \<Rightarrow> (world \<Rightarrow> bool) \<Rightarrow> bool" where
  "triple P m Q E =
     (\<forall>w r w'. P w \<and> m w = (r, w') \<longrightarrow> (case r of Return x \<Rightarrow> Q x w' | Throw e \<Rightarrow> E w'))"

subsection \<open>What the trace shows\<close>

fun written_path :: "event \<Rightarrow> string option" where
  "written_path (Done (WriteFileSync p c)) = Some p"
| "written_path e = None"

fun uploaded_name :: "event \<Rightarrow> string option" where
  "uploaded_name (Done (FPutObject b k p)) = Some k"
| "uploaded_name e = None"

fun deleted_path :: "event \<Rightarrow> string option" where
  "deleted_path (Done (UnlinkSync p)) = Some p"
| "deleted_path e = None"

fun listed_name :: "event \<Rightarrow> string option" where
  "listed_name (Print (MsgObjectLine k s)) = Some k"
| "listed_name e = None"

fun downloaded_name :: "event \<Rightarrow> string option" where
  "downloaded_name (Done (FGetObject b k p)) = Some k"
| "downloaded_name e = None"

text \<open>
  In the order of the trace: the paths written, the object names uploaded, the local
  paths deleted, the object names the listing printed, the object names downloaded
  (each counted when its call completed without error).
\<close>

definition written :: "event list \<Rightarrow> string list" where
  "written tr = List.map_filter written_path tr"

definition uploaded :: "event list \<Rightarrow> string list" where
  "uploaded tr = List.map_filter uploaded_name tr"

definition deleted :: "event list \<Rightarrow> string list" where
  "deleted tr = List.map_filter deleted_path tr"

definition listed :: "event list \<Rightarrow> string list" where
  "listed tr = List.map_filter listed_name tr"

definition downloaded :: "event list \<Rightarrow> string list" where
  "downloaded tr = List.map_filter downloaded_name tr"

text \<open>The files of the upload directory that exist on the local disk.\<close>

definition in_dir :: "string \<Rightarrow> string \<Rightarrow> bool" where
  "in_dir dir p = (take (length (path_join dir [])) p = path_join dir [])"

definition local_files :: "world \<Rightarrow> string set" where
  "local_files w = {p \<in> dom (disk w). in_dir uploadDir p}"

text \<open>The world after the two opening lines of \<^verbatim>\<open>runDemo\<close>, and after its closing lines.\<close>

definition banner :: "world \<Rightarrow> world" where
  "banner w = snd (say_all [MsgStarting, MsgRule] w)"

definition closing :: "world \<Rightarrow> world" where
  "closing w = snd (say_all [MsgBlank, MsgCompleted, MsgHintDashboard, MsgHintAudit, MsgHintLog,
              MsgHintConsole] w)"

subsection \<open>Deleting the local copy\<close>

fun unlink_path :: "event \<Rightarrow> string option" where
  "unlink_path (Done (UnlinkSync p)) = Some p"
| "unlink_path (Failed (UnlinkSync p)) = Some p"
| "unlink_path e = None"

fun put_done_path :: "event \<Rightarrow> string option" where
  "put_done_path (Done (FPutObject b k p)) = Some p"
| "put_done_path e = None"

fun is_print :: "event \<Rightarrow> bool" where
  "is_print (Print m) = True"
| "is_print e = False"

fun is_failed_put :: "event \<Rightarrow> bool" where
  "is_failed_put (Failed (FPutObject b k p)) = True"
| "is_failed_put e = False"

text \<open>
  On the events before a delete, newest first: a message, and before it an
  \<^verbatim>\<open>fPutObject\<close> of the same path that completed without error.
\<close>

fun put_just_done :: "string \<Rightarrow> event list \<Rightarrow> bool" where
  "put_just_done p (e1 # e2 # older) = (is_print e1 \<and> put_done_path e2 = Some p)"
| "put_just_done p older = False"

fun deletes_guarded_rev :: "event list \<Rightarrow> bool" where
  "deletes_guarded_rev [] = True"
| "deletes_guarded_rev (e # older) =
     ((case unlink_path e of None \<Rightarrow> True | Some p \<Rightarrow> put_just_done p older)
      \<and> deletes_guarded_rev older)"

text \<open>
  \<open>deletes_guarded tr\<close>: every attempt to delete a local path (whether it succeeds or
  not) comes directly after the success message of a completed upload of that path.
\<close>

definition deletes_guarded :: "event list \<Rightarrow> bool" where
  "deletes_guarded tr = deletes_guarded_rev (rev tr)"

text \<open>
  \<open>quiet_after_failed_put tr\<close>: after an upload call that failed, the trace holds
  messages only: no further call, so no delete.
\<close>

fun quiet_after_failed_put :: "event list \<Rightarrow> bool" where
  "quiet_after_failed_put [] = True"
| "quiet_after_failed_put (e # es) =
     (if is_failed_put e then list_all is_print es else quiet_after_failed_put es)"

definition no_failed_put :: "event list \<Rightarrow> bool" where
  "no_failed_put tr = list_all (\<lambda>e. \<not> is_failed_put e) tr"

definition upload_inv :: "world \<Rightarrow> bool" where
  "upload_inv w = (deletes_guarded (trace w) \<and> no_failed_put (trace w))"

definition upload_exc :: "world \<Rightarrow> bool" where
  "upload_exc w = (deletes_guarded (trace w) \<and> quiet_after_failed_put (trace w))"

subsection \<open>The request for the key that is not there\<close>

fun is_notfound_probe :: "event \<Rightarrow> bool" where
  "is_notfound_probe (Done (GetObject b k)) = True"
| "is_notfound_probe (Failed (GetObject b k)) = True"
| "is_notfound_probe e = False"

text \<open>
  \<open>probe_continues es\<close>: from the request for \<^verbatim>\<open>non-existent-file.txt\<close> on, the events
  are: the message of the catch block when the request failed (none when it did not),
  then the bucket-location call and its message, and nothing else.
\<close>

fun probe_continues :: "event list \<Rightarrow> bool" where
  "probe_continues [] = True"
| "probe_continues (e # es) =
     (if e = Failed (GetObject bucketName ''non-existent-file.txt'')
      then es = [Print MsgAttempted404, Done (GetBucketLocation bucketName), Print MsgLocation]
           \<or> es = [Print MsgAttempted404, Failed (GetBucketLocation bucketName), Print WarnNoLocation]
      else if e = Done (GetObject bucketName ''non-existent-file.txt'')
      then es = [Done (GetBucketLocation bucketName), Print MsgLocation]
           \<or> es = [Failed (GetBucketLocation bucketName), Print WarnNoLocation]
      else probe_continues es)"

definition not_probed :: "world \<Rightarrow> bool" where
  "not_probed w = list_all (\<lambda>e. \<not> is_notfound_probe e) (trace w)"

subsection \<open>The steps after the bucket setup\<close>

text \<open>
  The calls of the four steps that follow the bucket setup, the delete of the local copy
  apart: writing a generated file, reading the size of a file, the upload, the listing
  of the whole bucket (the recursive one; the probe by prefix is not) and the download.
\<close>

fun step_call :: "call \<Rightarrow> bool" where
  "step_call (WriteFileSync p c) = True"
| "step_call (StatSync p) = True"
| "step_call (FPutObject b k p) = True"
| "step_call (ListObjects b pre r) = r"
| "step_call (FGetObject b k p) = True"
| "step_call c = False"

fun is_failed_step :: "event \<Rightarrow> bool" where
  "is_failed_step (Failed c) = step_call c"
| "is_failed_step e = False"

fun is_failed_unlink :: "event \<Rightarrow> bool" where
  "is_failed_unlink (Failed (UnlinkSync p)) = True"
| "is_failed_unlink e = False"

definition steps_clean :: "world \<Rightarrow> bool" where
  "steps_clean w = (\<not> list_ex is_failed_step (trace w))"

definition step_or_delete_failed :: "world \<Rightarrow> bool" where
  "step_or_delete_failed w = list_ex (\<lambda>e. is_failed_step e \<or> is_failed_unlink e) (trace w)"

section \<open>Concrete surroundings for the examples\<close>

text \<open>
  Lorem text as faker shapes it: paragraphs of three sentences, joined by a line feed.
\<close>

fun join_lines :: "string list \<Rightarrow> string" where
  "join_lines [] = []"
| "join_lines [p] = p"
| "join_lines (p # q # ps) = p @ [CHR 0x0A] @ join_lines (q # ps)"

definition paragraph_typical :: string where
  "paragraph_typical =
     ''Lorem ipsum dolor sit amet consectetur. Adipiscing elit sed do eiusmod tempor incididunt. Ut labore et dolore magna aliqua.''"

definition lorem_typical :: "nat \<Rightarrow> string" where
  "lorem_typical n = join_lines (replicate n paragraph_typical)"

definition paragraph_short :: string where
  "paragraph_short = ''Lorem ipsum dolor. Sit amet sed. Ut enim ad.''"

definition lorem_short :: "nat \<Rightarrow> string" where
  "lorem_short n = join_lines (replicate n paragraph_short)"

definition no_fault :: "call \<Rightarrow> nat \<Rightarrow> bool" where
  "no_fault c t = False"

definition all_fault :: "call \<Rightarrow> nat \<Rightarrow> bool" where
  "all_fault c t = True"

text \<open>Worlds: nothing there; the bucket there and empty; a file left in the upload
  directory; the bucket holding an object under the key the driver probes.\<close>

definition w_fresh :: world where
  "w_fresh = \<lparr>buckets = Map.empty, policies = Map.empty, disk = Map.empty, trace = [], draws = 0\<rparr>"

definition w_ready :: world where
  "w_ready = w_fresh\<lparr>buckets := [bucketName \<mapsto> []]\<rparr>"

definition w_leftover :: world where
  "w_leftover = w_fresh\<lparr>disk := [''uploads/old.txt'' \<mapsto> ''left over'']\<rparr>"

definition w_404 :: world where
  "w_404 = w_fresh\<lparr>buckets := [bucketName \<mapsto> [(''non-existent-file.txt'', ''here'')]]\<rparr>"

text \<open>Environments: one file of the largest draw; one file of the smallest draw and
  short sentences; two files of the same name; three files; three files whose names are
  not drawn in ascending order; and environments in which
  every call, every upload, every local delete or every listing fails.\<close>

definition env_big :: env where
  "env_big = \<lparr>fails = no_fault, rand_nat = (\<lambda>i. 49000), rand_fileName = (\<lambda>i. ''report''),
               rand_paragraphs = (\<lambda>i n. lorem_typical n)\<rparr>"

definition env_small :: env where
  "env_small = \<lparr>fails = no_fault, rand_nat = (\<lambda>i. 0), rand_fileName = (\<lambda>i. ''note''),
                 rand_paragraphs = (\<lambda>i n. lorem_short n)\<rparr>"

definition env_dup :: env where
  "env_dup = \<lparr>fails = no_fault, rand_nat = (\<lambda>i. 1), rand_fileName = (\<lambda>i. ''a''),
               rand_paragraphs = (\<lambda>i n. lorem_typical n)\<rparr>"

definition env_three :: env where
  "env_three =
     \<lparr>fails = no_fault, rand_nat = (\<lambda>i. if i = 0 then 2 else 49000),
      rand_fileName = (\<lambda>i. if i = 1 then ''alpha'' else if i = 4 then ''beta'' else ''gamma''),
      rand_paragraphs = (\<lambda>i n. lorem_typical n)\<rparr>"

definition env_shuffled :: env where
  "env_shuffled =
     \<lparr>fails = no_fault, rand_nat = (\<lambda>i. if i = 0 then 2 else 49000),
      rand_fileName = (\<lambda>i. if i = 1 then ''gamma'' else if i = 4 then ''alpha'' else ''beta''),
      rand_paragraphs = (\<lambda>i n. lorem_typical n)\<rparr>"

definition env_down :: env where
  "env_down = env_big\<lparr>fails := all_fault\<rparr>"

definition env_noput :: env where
  "env_noput = env_big\<lparr>fails := (\<lambda>c t. is_fPutObject c)\<rparr>"

definition env_nounlink :: env where
  "env_nounlink = env_big\<lparr>fails := (\<lambda>c t. is_unlinkSync c)\<rparr>"

definition env_nolist :: env where
  "env_nolist = env_big\<lparr>fails := (\<lambda>c t. is_list_call c)\<rparr>"

section \<open>Basic facts\<close>

lemmas js_defs = createBucketIfNotExists_def generateRandomFile_def uploadFile_def
  downloadFile_def listObjects_def performAdditionalOperations_def runDemo_try_def runDemo_def
  bucketName_def uploadDir_def downloadDir_def path_join_def math_ceil_div_def policy_doc_def

lemmas fixture_defs = w_fresh_def w_ready_def w_leftover_def w_404_def env_big_def env_small_def
  env_dup_def env_three_def env_shuffled_def env_down_def env_noput_def env_nounlink_def env_nolist_def
  no_fault_def all_fault_def

lemmas io_defs = ret_def throw_def bind_def catch_def say_def say_all_def call_def sleep_def
  invoke_def print_def bucketExists_def statSync_def listObjects_stream_def listing_def Let_def
  faker_number_int_def faker_system_fileName_def faker_lorem_paragraphs_def

lemmas shown_defs = written_def uploaded_def deleted_def listed_def downloaded_def
  List.map_filter_def

declare runDemo_generate.simps [simp del]

subsection \<open>Arithmetic and strings\<close>

lemma math_ceil_div_ceiling:
  assumes "0 < b"
  shows "int (math_ceil_div a b) = \<lceil>real a / real b\<rceil>"
proof -
  define m where "m = (a + b - 1) div b"
  have lo: "m * b \<le> a + b - 1"
    unfolding m_def by simp
  have hi: "a + b - 1 < m * b + b"
    unfolding m_def using assms dividend_less_div_times[of b "a + b - 1"] by simp
  have "a \<le> m * b"
    using hi assms by linarith
  then have up: "real a \<le> real m * real b"
    by (metis of_nat_le_iff of_nat_mult)
  have "m * b < a + b"
    using lo assms by linarith
  then have down: "real m * real b < real a + real b"
    by (metis of_nat_less_iff of_nat_mult of_nat_add)
  have pos: "0 < real b"
    using assms by simp
  have "real a / real b \<le> real m"
    using up pos by (simp add: field_simps)
  moreover have "real m - 1 < real a / real b"
    using down pos by (simp add: field_simps)
  ultimately have "\<lceil>real a / real b\<rceil> = int m"
    by (intro ceiling_unique) simp_all
  then show ?thesis
    by (simp add: math_ceil_div_def m_def)
qed

lemma length_join_lines_replicate:
  "length (join_lines (replicate n p)) = n * length p + (n - 1)"
proof (induction n)
  case 0
  then show ?case by simp
next
  case (Suc n)
  then show ?case by (cases n) simp_all
qed

lemma length_lorem_typical: "length (lorem_typical n) = n * 123 + (n - 1)"
  by (simp add: lorem_typical_def length_join_lines_replicate paragraph_typical_def)

lemma length_lorem_short: "length (lorem_short n) = n * 44 + (n - 1)"
  by (simp add: lorem_short_def length_join_lines_replicate paragraph_short_def)

lemma path_join_inj [simp]: "path_join d a = path_join d b \<longleftrightarrow> a = b"
  by (simp add: path_join_def)

lemma in_dir_path_join [simp]: "in_dir d (path_join d name)"
  by (simp add: in_dir_def path_join_def)

lemma faker_number_int_range:
  assumes "faker_number_int env lo hi w = (Return n, w')" and "lo \<le> hi"
  shows "lo \<le> n \<and> n \<le> hi"
proof -
  have "rand_nat env (draws w) mod Suc (hi - lo) < Suc (hi - lo)"
    by (rule mod_less_divisor) simp
  then have le: "rand_nat env (draws w) mod Suc (hi - lo) \<le> hi - lo"
    by simp
  have n: "n = lo + rand_nat env (draws w) mod Suc (hi - lo)"
    using assms(1) by (auto simp: faker_number_int_def)
  show ?thesis
    using le assms(2) unfolding n by linarith
qed

subsection \<open>Sequencing\<close>

lemma trace_effect [simp]: "trace (effect c w) = trace w"
  by (cases c) (simp_all split: option.splits)

lemma draws_effect [simp]: "draws (effect c w) = draws w"
  by (cases c) (simp_all split: option.splits)

lemma bind_ReturnE:
  assumes "bind m f w = (Return y, w')"
  obtains x w1 where "m w = (Return x, w1)" and "f x w1 = (Return y, w')"
  using assms by (auto simp: bind_def split: prod.splits result.splits)

lemma say_ReturnE:
  assumes "say m w = (r, w')"
  obtains "r = Return ()" and "w' = snd (say m w)"
  using assms by (auto simp: say_def)

lemma runDemo_upload_Nil: "runDemo_upload env [] = ret ()"
  by (rule ext) (simp add: ret_def)

lemma runDemo_upload_Cons:
  "runDemo_upload env (f # fs) =
     bind (uploadFile env (fileName f) (filePath f))
       (\<lambda>_. bind (sleep 500) (\<lambda>_. runDemo_upload env fs))"
  by (rule ext) (simp add: bind_def sleep_def split: prod.splits result.splits)

lemma runDemo_download_Nil: "runDemo_download env [] = ret ()"
  by (rule ext) (simp add: ret_def)

lemma runDemo_download_Cons:
  "runDemo_download env (f # fs) =
     bind (downloadFile env (fileName f)) (\<lambda>_. bind (sleep 500) (\<lambda>_. runDemo_download env fs))"
  by (rule ext) (simp add: bind_def sleep_def split: prod.splits result.splits)

subsection \<open>The events each part of the driver adds\<close>

lemma addsI:
  "(\<And>w r w'. m w = (r, w') \<Longrightarrow> \<exists>es. trace w' = trace w @ es \<and> list_all (only C P) es)
   \<Longrightarrow> adds m C P"
  by (simp add: adds_def)

lemma addsD:
  "adds m C P \<Longrightarrow> m w = (r, w') \<Longrightarrow> \<exists>es. trace w' = trace w @ es \<and> list_all (only C P) es"
  by (simp add: adds_def)

lemma adds_ret: "adds (ret x) C P"
  by (simp add: adds_def ret_def)

lemma adds_throw: "adds (throw e) C P"
  by (simp add: adds_def throw_def)

lemma adds_say: "P m \<Longrightarrow> adds (say m) C P"
  by (simp add: adds_def say_def print_def)

lemma adds_say_all: "list_all P ms \<Longrightarrow> adds (say_all ms) C P"
  by (auto simp: adds_def say_all_def list_all_iff)

lemma adds_sleep: "C (Sleep n) \<Longrightarrow> adds (sleep n) C P"
  by (simp add: adds_def sleep_def)

lemma adds_call: "C c \<Longrightarrow> adds (call env c) C P"
  by (auto simp: adds_def call_def invoke_def split: if_splits)

lemma adds_bind: "adds m C P \<Longrightarrow> (\<And>x. adds (f x) C P) \<Longrightarrow> adds (bind m f) C P"
  unfolding adds_def bind_def
  by (fastforce split: prod.splits result.splits)

lemma adds_catch: "adds m C P \<Longrightarrow> (\<And>e. adds (h e) C P) \<Longrightarrow> adds (catch m h) C P"
  unfolding adds_def catch_def
  by (fastforce split: prod.splits result.splits)

lemma adds_if: "adds m C P \<Longrightarrow> adds n C P \<Longrightarrow> adds (if b then m else n) C P"
  by simp

lemma adds_bucketExists: "C (BucketExists b) \<Longrightarrow> adds (bucketExists env b) C P"
  by (auto simp: adds_def bucketExists_def bind_def ret_def call_def invoke_def split: if_splits)

lemma adds_statSync: "C (StatSync p) \<Longrightarrow> adds (statSync env p) C P"
  by (auto simp: adds_def statSync_def bind_def ret_def call_def invoke_def split: if_splits)

lemma adds_listObjects_stream:
  "C (ListObjects b pre r) \<Longrightarrow> adds (listObjects_stream env b pre r) C P"
  by (auto simp: adds_def listObjects_stream_def bind_def ret_def call_def invoke_def
      split: if_splits)

lemma adds_faker_number_int: "adds (faker_number_int env lo hi) C P"
  by (simp add: adds_def faker_number_int_def)

lemma adds_faker_system_fileName: "adds (faker_system_fileName env) C P"
  by (simp add: adds_def faker_system_fileName_def)

lemma adds_faker_lorem_paragraphs: "adds (faker_lorem_paragraphs env n) C P"
  by (simp add: adds_def faker_lorem_paragraphs_def)

lemmas adds_intros = adds_ret adds_throw adds_say adds_say_all adds_sleep adds_call adds_bind
  adds_catch adds_if adds_bucketExists adds_statSync adds_listObjects_stream
  adds_faker_number_int adds_faker_system_fileName adds_faker_lorem_paragraphs

lemma adds_createBucketIfNotExists: "adds (createBucketIfNotExists env) is_bucket_call plain_msg"
  unfolding createBucketIfNotExists_def
  by (intro adds_intros) (simp_all add: plain_msg_def)

lemma adds_generateRandomFile: "adds (generateRandomFile env) is_write_call plain_msg"
  unfolding generateRandomFile_def
  by (intro adds_intros) simp_all

lemma runDemo_generate_unfold:
  "runDemo_generate env n i files =
     (if i < n
      then bind (generateRandomFile env) (\<lambda>file.
           bind (say (MsgFileLine (i + 1) (fileName file) (size_f file))) (\<lambda>_.
           runDemo_generate env n (i + 1) (files @ [file])))
      else ret files)"
  by (rule ext)
     (simp add: runDemo_generate.simps bind_def say_def ret_def split: prod.splits result.splits)

lemma plain_msg_FileLine: "plain_msg (MsgFileLine i nm s)"
  by (simp add: plain_msg_def)

lemma adds_runDemo_generate: "adds (runDemo_generate env n i files) is_write_call plain_msg"
proof (induction "n - i" arbitrary: i files)
  case 0
  then show ?case
    by (subst runDemo_generate_unfold) (simp add: adds_ret)
next
  case (Suc k)
  then have less: "i < n" and k: "k = n - (i + 1)"
    by simp_all
  have step: "adds (runDemo_generate env n (i + 1) (files @ [f])) is_write_call plain_msg"
    for f
    by (rule Suc.hyps(1)[OF k])
  have "adds (bind (generateRandomFile env) (\<lambda>file.
           bind (say (MsgFileLine (i + 1) (fileName file) (size_f file))) (\<lambda>_.
           runDemo_generate env n (i + 1) (files @ [file])))) is_write_call plain_msg"
    by (intro adds_bind adds_generateRandomFile adds_say plain_msg_FileLine step)
  then show ?case
    by (subst runDemo_generate_unfold) (simp add: less)
qed

lemma adds_uploadFile: "adds (uploadFile env nm p) is_upload_call plain_msg"
  unfolding uploadFile_def
  by (intro adds_intros) (simp_all add: plain_msg_def)

lemma adds_runDemo_upload: "adds (runDemo_upload env files) is_upload_call plain_msg"
proof (induction files)
  case Nil
  show ?case
    unfolding runDemo_upload_Nil by (rule adds_ret)
next
  case (Cons f files)
  show ?case
    unfolding runDemo_upload_Cons
    by (intro adds_bind adds_uploadFile adds_sleep Cons.IH) simp
qed

lemma adds_listObjects: "adds (listObjects env) is_list_call any_msg"
  unfolding listObjects_def
  by (intro adds_intros) (simp_all add: any_msg_def list_all_iff)

lemma adds_downloadFile: "adds (downloadFile env nm) is_download_call plain_msg"
  unfolding downloadFile_def
  by (intro adds_intros) (simp_all add: plain_msg_def)

lemma adds_runDemo_download: "adds (runDemo_download env files) is_download_call plain_msg"
proof (induction files)
  case Nil
  show ?case
    unfolding runDemo_download_Nil by (rule adds_ret)
next
  case (Cons f files)
  show ?case
    unfolding runDemo_download_Cons
    by (intro adds_bind adds_downloadFile adds_sleep Cons.IH) simp
qed

lemma adds_performAdditionalOperations:
  "adds (performAdditionalOperations env) is_probe_call plain_msg"
  unfolding performAdditionalOperations_def
  by (intro adds_intros) (simp_all add: plain_msg_def)

lemma filter_only_none:
  assumes "list_all (only C P) es"
    and "\<And>c. C c \<Longrightarrow> \<not> Q (Done c) \<and> \<not> Q (Failed c)"
    and "\<And>m. P m \<Longrightarrow> \<not> Q (Print m)"
  shows "filter Q es = []"
  using assms
proof (induction es)
  case Nil
  then show ?case by simp
next
  case (Cons e es)
  then show ?case by (cases e) simp_all
qed

lemma map_filter_append:
  "List.map_filter f (xs @ ys) = List.map_filter f xs @ List.map_filter f ys"
  by (simp add: List.map_filter_def)

lemma map_filter_only_none:
  assumes "list_all (only C P) es"
    and "\<And>c. C c \<Longrightarrow> f (Done c) = None \<and> f (Failed c) = None"
    and "\<And>m. P m \<Longrightarrow> f (Print m) = None"
  shows "List.map_filter f es = []"
  using assms
proof (induction es)
  case Nil
  then show ?case by (simp add: List.map_filter_def)
next
  case (Cons e es)
  then show ?case by (cases e) (simp_all add: List.map_filter_def)
qed

text \<open>A part of the driver leaves a projection of the trace as it is when none of its
  events shows in it.\<close>

lemma shown_same:
  assumes "adds m C P" and "m w = (r, w')"
    and "\<And>c. C c \<Longrightarrow> f (Done c) = None \<and> f (Failed c) = None"
    and "\<And>m. P m \<Longrightarrow> f (Print m) = None"
  shows "List.map_filter f (trace w') = List.map_filter f (trace w)"
proof -
  obtain es where es: "trace w' = trace w @ es" "list_all (only C P) es"
    using addsD[OF assms(1,2)] by blast
  show ?thesis
    using map_filter_only_none[OF es(2) assms(3,4)] by (simp add: es(1) map_filter_append)
qed

subsection \<open>Triples\<close>

lemma tripleI:
  "(\<And>w x w'. P w \<Longrightarrow> m w = (Return x, w') \<Longrightarrow> Q x w') \<Longrightarrow>
   (\<And>w e w'. P w \<Longrightarrow> m w = (Throw e, w') \<Longrightarrow> E w') \<Longrightarrow> triple P m Q E"
  by (auto simp: triple_def split: result.splits)

lemma triple_Return: "triple P m Q E \<Longrightarrow> P w \<Longrightarrow> m w = (Return x, w') \<Longrightarrow> Q x w'"
  by (fastforce simp: triple_def)

lemma triple_Throw: "triple P m Q E \<Longrightarrow> P w \<Longrightarrow> m w = (Throw e, w') \<Longrightarrow> E w'"
  by (fastforce simp: triple_def)

lemma triple_bind:
  "triple P m Q E \<Longrightarrow> (\<And>x. triple (Q x) (f x) R E) \<Longrightarrow> triple P (bind m f) R E"
  unfolding triple_def bind_def
  by (fastforce split: prod.splits result.splits)

lemma triple_weaken:
  "triple P m Q E \<Longrightarrow> (\<And>w. P' w \<Longrightarrow> P w) \<Longrightarrow> (\<And>x w. Q x w \<Longrightarrow> Q' x w) \<Longrightarrow>
   (\<And>w. E w \<Longrightarrow> E' w) \<Longrightarrow> triple P' m Q' E'"
  unfolding triple_def
  by (fastforce split: result.splits)

lemma inv_bind:
  "triple I m (\<lambda>_. I) E \<Longrightarrow> (\<And>x. triple I (f x) Q E) \<Longrightarrow> triple I (bind m f) Q E"
  by (rule triple_bind)

lemma triple_adds:
  assumes "adds m C P"
    and "\<And>tr es. T tr \<Longrightarrow> list_all (only C P) es \<Longrightarrow> T (tr @ es)"
  shows "triple (\<lambda>w. T (trace w)) m (\<lambda>_ w. T (trace w)) (\<lambda>w. T (trace w))"
proof (rule tripleI)
  fix w x w'
  assume "T (trace w)" "m w = (Return x, w')"
  then show "T (trace w')"
    using addsD[OF assms(1)] assms(2) by fastforce
next
  fix w e w'
  assume "T (trace w)" "m w = (Throw e, w')"
  then show "T (trace w')"
    using addsD[OF assms(1)] assms(2) by fastforce
qed

subsection \<open>The run, part by part\<close>

lemma catch_say_Return: "catch m (\<lambda>e. say (msg e)) w = (r, w') \<Longrightarrow> \<exists>x. r = Return x"
  by (auto simp: catch_def say_def split: prod.splits result.splits)

lemma performAdditionalOperations_Return:
  "performAdditionalOperations env w = (r, w') \<Longrightarrow> r = Return ()"
  unfolding performAdditionalOperations_def
  by (drule catch_say_Return) simp

lemma runDemo_try_Return:
  assumes "runDemo_try env w = (Return u, w')"
  shows "\<exists>w0 n wa files w1 w2 objs w3 w4 w5.
    createBucketIfNotExists env (banner w) = (Return (), w0)
    \<and> faker_number_int env 1 5 w0 = (Return n, wa)
    \<and> runDemo_generate env n 0 [] (snd (say (MsgGenerating n) wa)) = (Return files, w1)
    \<and> runDemo_upload env files (snd (say MsgBlank w1)) = (Return (), w2)
    \<and> listObjects env (snd (say MsgBlank w2)) = (Return objs, w3)
    \<and> runDemo_download env (take (min 2 (length files)) files) (snd (say MsgBlank w3))
        = (Return (), w4)
    \<and> performAdditionalOperations env (snd (say MsgBlank w4)) = (Return (), w5)
    \<and> w' = closing w5"
  using assms
  unfolding runDemo_try_def banner_def closing_def
  by (elim bind_ReturnE say_ReturnE) (simp add: say_all_def)


subsection \<open>Bucket setup\<close>

lemma createBucket_throw_cause:
  assumes "createBucketIfNotExists env w = (Throw e, w1)"
  shows "e = CallFailed (BucketExists bucketName)
         \<or> e = CallFailed (MakeBucket bucketName ''us-east-1'')"
  using assms
  by (auto simp: createBucketIfNotExists_def io_defs split: if_splits)

lemma createBucket_setup_failure_throws:
  assumes "createBucketIfNotExists env w = (r, w')" and "trace w' = trace w @ es"
    and "Failed (BucketExists bucketName) \<in> set es
         \<or> Failed (MakeBucket bucketName ''us-east-1'') \<in> set es"
  shows "\<exists>e. r = Throw e"
  using assms
  by (auto simp: createBucketIfNotExists_def bucketExists_def io_defs split: if_splits)

subsection \<open>Generating and uploading\<close>

lemma generateRandomFile_Return:
  assumes "generateRandomFile env w = (Return f, w')"
  shows "filePath f = path_join uploadDir (fileName f)"
    and "fileName f = rand_fileName env (draws w) @ ''.txt''"
    and "dom (disk w') = insert (filePath f) (dom (disk w))"
    and "buckets w' = buckets w"
    and "draws w' = draws w + 3"
    and "trace w' = trace w @ [Done (WriteFileSync (filePath f)
           (rand_paragraphs env (draws w + 2)
              (math_ceil_div (1000 + rand_nat env (draws w + 1) mod 49001) 100)))]"
  using assms
  by (auto simp: generateRandomFile_def io_defs split: if_splits)

lemma runDemo_generate_Return:
  "runDemo_generate env n i files w = (Return files', w') \<Longrightarrow>
   \<exists>news. files' = files @ news \<and> length news = n - i
     \<and> dom (disk w') = dom (disk w) \<union> set (map filePath news)
     \<and> map filePath news = map (path_join uploadDir) (map fileName news)
     \<and> map fileName news = map (\<lambda>j. rand_fileName env (draws w + 3 * j) @ ''.txt'') [0..<n - i]
     \<and> written (trace w') = written (trace w) @ map filePath news
     \<and> buckets w' = buckets w"
proof (induction env n i files w rule: runDemo_generate.induct)
  case (1 env numFiles i files w)
  show ?case
  proof (cases "i < numFiles")
    case False
    with "1.prems" show ?thesis
      by (simp add: runDemo_generate.simps)
  next
    case True
    obtain r w1 where g: "generateRandomFile env w = (r, w1)"
      by (cases "generateRandomFile env w")
    with True "1.prems" obtain f where r: "r = Return f"
      by (cases r) (simp_all add: runDemo_generate.simps)
    let ?w2 = "print (MsgFileLine (i + 1) (fileName f) (size_f f)) w1"
    have rec: "runDemo_generate env numFiles (i + 1) (files @ [f]) ?w2 = (Return files', w')"
      using "1.prems" True g r by (simp add: runDemo_generate.simps)
    from "1.IH"[OF True g[unfolded r, symmetric] refl rec]
    obtain news where n: "files' = (files @ [f]) @ news" "length news = numFiles - (i + 1)"
        "dom (disk w') = dom (disk ?w2) \<union> set (map filePath news)"
        "map filePath news = map (path_join uploadDir) (map fileName news)"
        "map fileName news =
           map (\<lambda>j. rand_fileName env (draws ?w2 + 3 * j) @ ''.txt'') [0..<numFiles - (i + 1)]"
        "written (trace w') = written (trace ?w2) @ map filePath news"
        "buckets w' = buckets ?w2"
      by blast
    note gr = generateRandomFile_Return[OF g[unfolded r]]
    have count: "[0..<numFiles - i] = 0 # map Suc [0..<numFiles - (i + 1)]"
      using True by (metis Suc_diff_Suc Suc_eq_plus1 diff_Suc_eq_diff_pred
          diff_diff_left map_Suc_upt upt_conv_Cons zero_less_diff)
    have names: "map fileName (f # news) =
        map (\<lambda>j. rand_fileName env (draws w + 3 * j) @ ''.txt'') [0..<numFiles - i]"
      unfolding count using n(5) gr(2,5)
      by (simp add: print_def comp_def algebra_simps)
    have wr: "written (trace w') = written (trace w) @ map filePath (f # news)"
      using n(6) gr(6) by (simp add: print_def shown_defs)
    show ?thesis
    proof (intro exI[of _ "f # news"] conjI)
      show "files' = files @ f # news"
        using n(1) by simp
      show "length (f # news) = numFiles - i"
        using n(2) True by simp
      show "dom (disk w') = dom (disk w) \<union> set (map filePath (f # news))"
        using n(3) gr(3) by (auto simp: print_def)
      show "map filePath (f # news) = map (path_join uploadDir) (map fileName (f # news))"
        using n(4) gr(1) by simp
      show "map fileName (f # news) =
          map (\<lambda>j. rand_fileName env (draws w + 3 * j) @ ''.txt'') [0..<numFiles - i]"
        by (rule names)
      show "written (trace w') = written (trace w) @ map filePath (f # news)"
        by (rule wr)
      show "buckets w' = buckets w"
        using n(7) gr(4) by (simp add: print_def)
    qed
  qed
qed

lemma uploadFile_Return:
  assumes "uploadFile env nm p w = (Return s, w')"
  shows "disk w' = (disk w)(p := None)"
    and "disk w p \<noteq> None"
    and "\<exists>os c. buckets w bucketName = Some os \<and> disk w p = Some c
           \<and> buckets w' = (buckets w)(bucketName \<mapsto> AList.update nm c os)"
    and "trace w' = trace w @ [Done (StatSync p), Print (MsgUploading nm s),
           Done (FPutObject bucketName nm p), Print (MsgUploaded nm),
           Done (UnlinkSync p), Print (MsgDeletedLocal nm)]"
  using assms
  by (auto simp: uploadFile_def io_defs split: if_splits option.splits)

lemma runDemo_upload_Return:
  "runDemo_upload env files w = (Return u, w') \<Longrightarrow>
   dom (disk w') = dom (disk w) - set (map filePath files)
   \<and> set (map filePath files) \<subseteq> dom (disk w)
   \<and> distinct (map filePath files)
   \<and> uploaded (trace w') = uploaded (trace w) @ map fileName files
   \<and> deleted (trace w') = deleted (trace w) @ map filePath files
   \<and> written (trace w') = written (trace w)
   \<and> listed (trace w') = listed (trace w)
   \<and> downloaded (trace w') = downloaded (trace w)"
proof (induction files arbitrary: w)
  case Nil
  then show ?case by simp
next
  case (Cons f files)
  obtain r w1 where up: "uploadFile env (fileName f) (filePath f) w = (r, w1)"
    by (cases "uploadFile env (fileName f) (filePath f) w")
  with Cons.prems obtain s where r: "r = Return s"
    by (cases r) simp_all
  have rec: "runDemo_upload env files (snd (sleep 500 w1)) = (Return u, w')"
    using Cons.prems up r by simp
  note ih = Cons.IH[OF rec]
  note uf = uploadFile_Return[OF up[unfolded r]]
  have d1: "disk (snd (sleep 500 w1)) = (disk w)(filePath f := None)"
    using uf(1) by (simp add: sleep_def)
  have t1: "trace (snd (sleep 500 w1)) = trace w @ [Done (StatSync (filePath f)),
           Print (MsgUploading (fileName f) s),
           Done (FPutObject bucketName (fileName f) (filePath f)), Print (MsgUploaded (fileName f)),
           Done (UnlinkSync (filePath f)), Print (MsgDeletedLocal (fileName f)), Done (Sleep 500)]"
    using uf(4) by (simp add: sleep_def)
  have d2: "dom (disk (snd (sleep 500 w1))) = dom (disk w) - {filePath f}"
    unfolding d1 by simp
  have "dom (disk w') = dom (disk w) - set (map filePath (f # files))"
    using ih d2 by auto
  moreover have "set (map filePath (f # files)) \<subseteq> dom (disk w)"
    using ih d2 uf(2) by auto
  moreover have "distinct (map filePath (f # files))"
    using ih d2 by auto
  moreover have "uploaded (trace w') = uploaded (trace w) @ map fileName (f # files)"
    and "deleted (trace w') = deleted (trace w) @ map filePath (f # files)"
    and "written (trace w') = written (trace w)"
    and "listed (trace w') = listed (trace w)"
    and "downloaded (trace w') = downloaded (trace w)"
    using ih by (simp_all add: t1 shown_defs)
  ultimately show ?case
    by blast
qed

lemma local_files_w_fresh: "local_files w_fresh = {}"
  by (simp add: local_files_def w_fresh_def)

subsection \<open>Downloading\<close>

lemma downloadFile_Return:
  assumes "downloadFile env nm w = (Return s, w')"
  shows "trace w' = trace w @ [Print (MsgDownloading nm),
           Done (FGetObject bucketName nm (path_join downloadDir (''downloaded_'' @ nm))),
           Print (MsgDownloaded nm (path_join downloadDir (''downloaded_'' @ nm))),
           Done (StatSync (path_join downloadDir (''downloaded_'' @ nm)))]"
  using assms
  by (auto simp: downloadFile_def io_defs simp del: effect.simps possible.simps split: if_splits)

lemma runDemo_download_Return:
  "runDemo_download env files w = (Return u, w') \<Longrightarrow>
   downloaded (trace w') = downloaded (trace w) @ map fileName files
   \<and> uploaded (trace w') = uploaded (trace w)
   \<and> deleted (trace w') = deleted (trace w)
   \<and> written (trace w') = written (trace w)
   \<and> listed (trace w') = listed (trace w)"
proof (induction files arbitrary: w)
  case Nil
  then show ?case by simp
next
  case (Cons f files)
  obtain r w1 where dl: "downloadFile env (fileName f) w = (r, w1)"
    by (cases "downloadFile env (fileName f) w")
  with Cons.prems obtain s where r: "r = Return s"
    by (cases r) simp_all
  have rec: "runDemo_download env files (snd (sleep 500 w1)) = (Return u, w')"
    using Cons.prems dl r by simp
  have t: "trace (snd (sleep 500 w1)) = trace w @ [Print (MsgDownloading (fileName f)),
           Done (FGetObject bucketName (fileName f)
                   (path_join downloadDir (''downloaded_'' @ fileName f))),
           Print (MsgDownloaded (fileName f) (path_join downloadDir (''downloaded_'' @ fileName f))),
           Done (StatSync (path_join downloadDir (''downloaded_'' @ fileName f))),
           Done (Sleep 500)]"
    using downloadFile_Return[OF dl[unfolded r]] by (simp add: sleep_def)
  show ?case
    using Cons.IH[OF rec] by (simp add: t shown_defs)
qed

subsection \<open>Parts that leave a projection of the trace alone\<close>

lemma none_bucket:
  assumes "is_bucket_call c"
  shows "written_path (Done c) = None \<and> written_path (Failed c) = None"
    and "uploaded_name (Done c) = None \<and> uploaded_name (Failed c) = None"
    and "deleted_path (Done c) = None \<and> deleted_path (Failed c) = None"
    and "listed_name (Done c) = None \<and> listed_name (Failed c) = None"
    and "downloaded_name (Done c) = None \<and> downloaded_name (Failed c) = None"
  using assms by (cases c; simp)+

lemma none_write:
  assumes "is_write_call c"
  shows "uploaded_name (Done c) = None \<and> uploaded_name (Failed c) = None"
    and "deleted_path (Done c) = None \<and> deleted_path (Failed c) = None"
    and "listed_name (Done c) = None \<and> listed_name (Failed c) = None"
    and "downloaded_name (Done c) = None \<and> downloaded_name (Failed c) = None"
  using assms by (cases c; simp)+

lemma none_list:
  assumes "is_list_call c"
  shows "written_path (Done c) = None \<and> written_path (Failed c) = None"
    and "uploaded_name (Done c) = None \<and> uploaded_name (Failed c) = None"
    and "deleted_path (Done c) = None \<and> deleted_path (Failed c) = None"
    and "listed_name (Done c) = None \<and> listed_name (Failed c) = None"
    and "downloaded_name (Done c) = None \<and> downloaded_name (Failed c) = None"
  using assms by (cases c; simp)+

lemma none_probe:
  assumes "is_probe_call c"
  shows "written_path (Done c) = None \<and> written_path (Failed c) = None"
    and "uploaded_name (Done c) = None \<and> uploaded_name (Failed c) = None"
    and "deleted_path (Done c) = None \<and> deleted_path (Failed c) = None"
    and "listed_name (Done c) = None \<and> listed_name (Failed c) = None"
    and "downloaded_name (Done c) = None \<and> downloaded_name (Failed c) = None"
  using assms by (cases c; simp)+

lemma none_print:
  "written_path (Print m) = None" "uploaded_name (Print m) = None"
  "deleted_path (Print m) = None" "downloaded_name (Print m) = None"
  "plain_msg m \<Longrightarrow> listed_name (Print m) = None"
  by (simp_all add: plain_msg_def) (cases m; simp)

lemma shown_say [simp]:
  "written (trace (snd (say m w))) = written (trace w)"
  "uploaded (trace (snd (say m w))) = uploaded (trace w)"
  "deleted (trace (snd (say m w))) = deleted (trace w)"
  "downloaded (trace (snd (say m w))) = downloaded (trace w)"
  "plain_msg m \<Longrightarrow> listed (trace (snd (say m w))) = listed (trace w)"
  using none_print[of m] by (simp_all add: say_def print_def shown_defs)

lemma plain_msg_simps [simp]:
  "plain_msg MsgBlank" "plain_msg (MsgGenerating n)" "plain_msg MsgStarting" "plain_msg MsgRule"
  "plain_msg MsgCompleted" "plain_msg MsgHintDashboard" "plain_msg MsgHintAudit"
  "plain_msg MsgHintLog" "plain_msg MsgHintConsole" "plain_msg (ErrDemoFailed e)"
  by (simp_all add: plain_msg_def)

lemma shown_banner [simp]:
  "written (trace (banner w)) = written (trace w)"
  "uploaded (trace (banner w)) = uploaded (trace w)"
  "deleted (trace (banner w)) = deleted (trace w)"
  "listed (trace (banner w)) = listed (trace w)"
  "downloaded (trace (banner w)) = downloaded (trace w)"
  by (simp_all add: banner_def say_all_def shown_defs)

lemma shown_closing [simp]:
  "written (trace (closing w)) = written (trace w)"
  "uploaded (trace (closing w)) = uploaded (trace w)"
  "deleted (trace (closing w)) = deleted (trace w)"
  "listed (trace (closing w)) = listed (trace w)"
  "downloaded (trace (closing w)) = downloaded (trace w)"
  by (simp_all add: closing_def say_all_def shown_defs)

lemma shown_createBucket:
  assumes "createBucketIfNotExists env w = (r, w')"
  shows "written (trace w') = written (trace w)"
    and "uploaded (trace w') = uploaded (trace w)"
    and "deleted (trace w') = deleted (trace w)"
    and "listed (trace w') = listed (trace w)"
    and "downloaded (trace w') = downloaded (trace w)"
  unfolding written_def uploaded_def deleted_def listed_def downloaded_def
  by (rule shown_same[OF adds_createBucketIfNotExists assms]; simp add: none_bucket none_print)+

lemma shown_faker_number_int:
  assumes "faker_number_int env lo hi w = (r, w')"
  shows "trace w' = trace w"
  using assms by (auto simp: faker_number_int_def)

lemma shown_generate:
  assumes "runDemo_generate env n i files w = (r, w')"
  shows "uploaded (trace w') = uploaded (trace w)"
    and "deleted (trace w') = deleted (trace w)"
    and "listed (trace w') = listed (trace w)"
    and "downloaded (trace w') = downloaded (trace w)"
  unfolding written_def uploaded_def deleted_def listed_def downloaded_def
  by (rule shown_same[OF adds_runDemo_generate assms]; simp add: none_write none_print)+

lemma shown_listObjects:
  assumes "listObjects env w = (r, w')"
  shows "written (trace w') = written (trace w)"
    and "uploaded (trace w') = uploaded (trace w)"
    and "deleted (trace w') = deleted (trace w)"
    and "downloaded (trace w') = downloaded (trace w)"
  unfolding written_def uploaded_def deleted_def listed_def downloaded_def
  by (rule shown_same[OF adds_listObjects assms]; simp add: none_list none_print)+

lemma shown_probes:
  assumes "performAdditionalOperations env w = (r, w')"
  shows "written (trace w') = written (trace w)"
    and "uploaded (trace w') = uploaded (trace w)"
    and "deleted (trace w') = deleted (trace w)"
    and "listed (trace w') = listed (trace w)"
    and "downloaded (trace w') = downloaded (trace w)"
  unfolding written_def uploaded_def deleted_def listed_def downloaded_def
  by (rule shown_same[OF adds_performAdditionalOperations assms]; simp add: none_probe none_print)+

subsection \<open>Some runs, evaluated\<close>

lemma run_three:
  "\<exists>w'. runDemo env_three w_fresh = (0, w')
     \<and> Done (MakeBucket ''js-test-bucket'' ''us-east-1'') \<in> set (trace w')
     \<and> Done (MakeBucket ''demo-bucket'' ''us-east-1'') \<notin> set (trace w')
     \<and> buckets w' ''demo-bucket'' = None
     \<and> written (trace w') = [''uploads/alpha.txt'', ''uploads/beta.txt'', ''uploads/gamma.txt'']
     \<and> uploaded (trace w') = [''alpha.txt'', ''beta.txt'', ''gamma.txt'']
     \<and> deleted (trace w') = [''uploads/alpha.txt'', ''uploads/beta.txt'', ''uploads/gamma.txt'']
     \<and> listed (trace w') = [''alpha.txt'', ''beta.txt'', ''gamma.txt'']
     \<and> downloaded (trace w') = [''alpha.txt'', ''beta.txt'']"
  by (simp add: runDemo_generate.simps js_defs io_defs fixture_defs length_lorem_typical
      shown_defs)

lemma run_big:
  "\<exists>w'. runDemo env_big w_fresh = (0, w')
     \<and> list_ex is_notfound_probe (trace w')
     \<and> uploaded (trace w') = [''report.txt'']
     \<and> deleted (trace w') = [''uploads/report.txt'']
     \<and> downloaded (trace w') = [''report.txt'']
     \<and> \<not> list_ex is_failed_unlink (trace w')"
  by (simp add: runDemo_generate.simps js_defs io_defs fixture_defs length_lorem_typical
      shown_defs)

lemma run_noput:
  "\<exists>w'. runDemo env_noput w_fresh = (1, w')
     \<and> list_ex is_failed_put (trace w')
     \<and> deleted (trace w') = []
     \<and> filter (\<lambda>e. unlink_path e \<noteq> None) (trace w') = []
     \<and> \<not> list_ex is_failed_unlink (trace w')"
  by (simp add: runDemo_generate.simps js_defs io_defs fixture_defs length_lorem_typical
      shown_defs)

lemma run_nolist:
  "\<exists>w'. runDemo env_nolist w_fresh = (1, w')
     \<and> uploaded (trace w') = [''report.txt'']
     \<and> downloaded (trace w') = []
     \<and> Failed (ListObjects bucketName [] True) \<in> set (trace w')"
  by (simp add: runDemo_generate.simps js_defs io_defs fixture_defs length_lorem_typical
      shown_defs)

lemma setup_big: "fst (createBucketIfNotExists env_big (banner w_fresh)) = Return ()"
  by (simp add: js_defs io_defs fixture_defs banner_def)

lemma setup_noput: "fst (createBucketIfNotExists env_noput (banner w_fresh)) = Return ()"
  by (simp add: js_defs io_defs fixture_defs banner_def)

text \<open>
  The run in which only the delete of the local copy fails: no step call fails, and the
  status is 1.
\<close>

lemma run_nounlink:
  "fst (runDemo env_nounlink w_fresh) = 1
   \<and> \<not> list_ex is_failed_step (trace (snd (runDemo env_nounlink w_fresh)))
   \<and> list_ex is_failed_unlink (trace (snd (runDemo env_nounlink w_fresh)))"
  by (simp add: runDemo_generate.simps js_defs io_defs fixture_defs length_lorem_typical)

text \<open>A listing by prefix that is not recursive, and a recursive listing of the same bucket.\<close>

lemma listing_example:
  "listing ''b'' ''sample'' False
     (w_fresh\<lparr>buckets := [''b'' \<mapsto> [(''sample/b'', ''22''), (''sample1'', ''1''),
                                      (''other'', ''333''), (''sample/a'', ''4444'')]]\<rparr>)
   = [(''sample1'', 1), (''sample/'', 0)]"
  "listing ''b'' [] True
     (w_fresh\<lparr>buckets := [''b'' \<mapsto> [(''sample/b'', ''22''), (''sample1'', ''1''),
                                      (''other'', ''333''), (''sample/a'', ''4444'')]]\<rparr>)
   = [(''other'', 3), (''sample/a'', 4), (''sample/b'', 2), (''sample1'', 1)]"
  by (simp_all add: listing_def below_delimiter_def common_prefix_def w_fresh_def)

subsection \<open>Deletes come after uploads: an invariant of the trace\<close>

lemma deletes_guarded_snoc:
  "deletes_guarded (tr @ [e]) =
     ((case unlink_path e of None \<Rightarrow> True | Some p \<Rightarrow> put_just_done p (rev tr))
      \<and> deletes_guarded tr)"
  by (simp add: deletes_guarded_def)

lemma only_other_event:
  assumes "only C P e" and "\<And>c. C c \<Longrightarrow> \<not> moves_local_copy c"
  shows "unlink_path e = None \<and> \<not> is_failed_put e"
proof (cases e)
  case (Done c)
  with assms have "\<not> moves_local_copy c" by simp
  with Done show ?thesis by (cases c) simp_all
next
  case (Failed c)
  with assms have "\<not> moves_local_copy c" by simp
  with Failed show ?thesis by (cases c) simp_all
next
  case (Print m)
  then show ?thesis by simp
qed

lemma deletes_guarded_append_other:
  assumes "\<And>c. C c \<Longrightarrow> \<not> moves_local_copy c"
  shows "deletes_guarded tr \<Longrightarrow> list_all (only C P) es \<Longrightarrow> deletes_guarded (tr @ es)"
proof (induction es arbitrary: tr)
  case Nil
  then show ?case by simp
next
  case (Cons e es)
  have "unlink_path e = None"
    using only_other_event[of C P e] assms Cons.prems(2) by simp
  then have "deletes_guarded (tr @ [e])"
    using Cons.prems(1) by (simp add: deletes_guarded_snoc)
  from Cons.IH[OF this] Cons.prems(2) show ?case
    by simp
qed

lemma no_failed_put_append_other:
  assumes "\<And>c. C c \<Longrightarrow> \<not> moves_local_copy c"
  shows "no_failed_put tr \<Longrightarrow> list_all (only C P) es \<Longrightarrow> no_failed_put (tr @ es)"
  using only_other_event[of C P] assms
  by (auto simp: no_failed_put_def list_all_iff)

lemma no_failed_put_quiet: "no_failed_put tr \<Longrightarrow> quiet_after_failed_put tr"
  by (induction tr) (simp_all add: no_failed_put_def)

lemma quiet_after_failed_put_print:
  "quiet_after_failed_put tr \<Longrightarrow> quiet_after_failed_put (tr @ [Print m])"
  by (induction tr) simp_all

lemma quiet_after_no_failed_put:
  "no_failed_put tr \<Longrightarrow> quiet_after_failed_put (tr @ es) = quiet_after_failed_put es"
  by (induction tr) (simp_all add: no_failed_put_def)

lemma triple_other:
  assumes "adds m C P" and "\<And>c. C c \<Longrightarrow> \<not> moves_local_copy c"
  shows "triple upload_inv m (\<lambda>_. upload_inv) upload_exc"
proof -
  have "triple (\<lambda>w. deletes_guarded (trace w) \<and> no_failed_put (trace w)) m
          (\<lambda>_ w. deletes_guarded (trace w) \<and> no_failed_put (trace w))
          (\<lambda>w. deletes_guarded (trace w) \<and> no_failed_put (trace w))"
    using assms(2)
    by (intro triple_adds[OF assms(1)])
       (auto intro: deletes_guarded_append_other no_failed_put_append_other)
  then show ?thesis
    unfolding upload_inv_def[abs_def] upload_exc_def[abs_def]
    by (rule triple_weaken) (simp_all add: no_failed_put_quiet)
qed

lemma triple_uploadFile: "triple upload_inv (uploadFile env nm p) (\<lambda>_. upload_inv) upload_exc"
  by (rule tripleI)
     (auto simp: uploadFile_def io_defs upload_inv_def upload_exc_def deletes_guarded_def
        no_failed_put_def quiet_after_no_failed_put[unfolded no_failed_put_def]
        no_failed_put_quiet[unfolded no_failed_put_def]
      split: if_splits)

lemma not_moves_none: "no_call c \<Longrightarrow> \<not> moves_local_copy c"
  by (simp add: no_call_def)

lemma not_moves_sleep: "c = Sleep n \<Longrightarrow> \<not> moves_local_copy c"
  by simp

lemma not_moves_bucket: "is_bucket_call c \<Longrightarrow> \<not> moves_local_copy c"
  by (cases c) simp_all

lemma not_moves_write: "is_write_call c \<Longrightarrow> \<not> moves_local_copy c"
  by (cases c) simp_all

lemma not_moves_list: "is_list_call c \<Longrightarrow> \<not> moves_local_copy c"
  by (cases c) simp_all

lemma not_moves_download: "is_download_call c \<Longrightarrow> \<not> moves_local_copy c"
  by (cases c) simp_all

lemma not_moves_probe: "is_probe_call c \<Longrightarrow> \<not> moves_local_copy c"
  by (cases c) simp_all

lemma any_msg_all: "list_all any_msg ms"
  by (simp add: any_msg_def list_all_iff)

lemma upload_triples:
  "triple upload_inv (ret x) (\<lambda>_. upload_inv) upload_exc"
  "triple upload_inv (say m) (\<lambda>_. upload_inv) upload_exc"
  "triple upload_inv (say_all ms) (\<lambda>_. upload_inv) upload_exc"
  "triple upload_inv (sleep n) (\<lambda>_. upload_inv) upload_exc"
  "triple upload_inv (faker_number_int env lo hi) (\<lambda>_. upload_inv) upload_exc"
  "triple upload_inv (createBucketIfNotExists env) (\<lambda>_. upload_inv) upload_exc"
  "triple upload_inv (runDemo_generate env k i files) (\<lambda>_. upload_inv) upload_exc"
  "triple upload_inv (listObjects env) (\<lambda>_. upload_inv) upload_exc"
  "triple upload_inv (runDemo_download env files) (\<lambda>_. upload_inv) upload_exc"
  "triple upload_inv (performAdditionalOperations env) (\<lambda>_. upload_inv) upload_exc"
proof -
  show "triple upload_inv (ret x) (\<lambda>_. upload_inv) upload_exc"
    by (rule triple_other[OF adds_ret[of _ no_call any_msg] not_moves_none])
  show "triple upload_inv (say m) (\<lambda>_. upload_inv) upload_exc"
    by (rule triple_other[OF adds_say[of any_msg _ no_call] not_moves_none])
       (simp add: any_msg_def)
  show "triple upload_inv (say_all ms) (\<lambda>_. upload_inv) upload_exc"
    by (rule triple_other[OF adds_say_all[of any_msg _ no_call] not_moves_none])
       (rule any_msg_all)
  show "triple upload_inv (sleep n) (\<lambda>_. upload_inv) upload_exc"
    by (rule triple_other[OF adds_sleep[of "\<lambda>c. c = Sleep n" _ any_msg] not_moves_sleep]) simp
  show "triple upload_inv (faker_number_int env lo hi) (\<lambda>_. upload_inv) upload_exc"
    by (rule triple_other[OF adds_faker_number_int[of _ _ _ no_call any_msg] not_moves_none])
  show "triple upload_inv (createBucketIfNotExists env) (\<lambda>_. upload_inv) upload_exc"
    by (rule triple_other[OF adds_createBucketIfNotExists not_moves_bucket])
  show "triple upload_inv (runDemo_generate env k i files) (\<lambda>_. upload_inv) upload_exc"
    by (rule triple_other[OF adds_runDemo_generate not_moves_write])
  show "triple upload_inv (listObjects env) (\<lambda>_. upload_inv) upload_exc"
    by (rule triple_other[OF adds_listObjects not_moves_list])
  show "triple upload_inv (runDemo_download env files) (\<lambda>_. upload_inv) upload_exc"
    by (rule triple_other[OF adds_runDemo_download not_moves_download])
  show "triple upload_inv (performAdditionalOperations env) (\<lambda>_. upload_inv) upload_exc"
    by (rule triple_other[OF adds_performAdditionalOperations not_moves_probe])
qed

lemma triple_runDemo_upload:
  "triple upload_inv (runDemo_upload env files) (\<lambda>_. upload_inv) upload_exc"
proof (induction files)
  case Nil
  show ?case
    unfolding runDemo_upload_Nil by (rule upload_triples)
next
  case (Cons f files)
  show ?case
    unfolding runDemo_upload_Cons
    by (intro inv_bind triple_uploadFile upload_triples Cons.IH)
qed

lemma triple_runDemo_try:
  "triple upload_inv (runDemo_try env) (\<lambda>_. upload_inv) upload_exc"
  unfolding runDemo_try_def
  by (intro inv_bind triple_runDemo_upload upload_triples)

subsection \<open>The not-found probe comes last: an invariant of the trace\<close>

lemma performAdditionalOperations_trace:
  assumes "performAdditionalOperations env w = (r, w')"
  shows "\<exists>es. trace w' = trace w @ es \<and> probe_continues es
           \<and> (Done (ListObjects bucketName ''sample'' False) \<in> set es
                \<longrightarrow> list_ex is_notfound_probe es)"
  using assms
  by (auto simp: performAdditionalOperations_def io_defs bucketName_def split: if_splits)

lemma triple_not_probed:
  assumes "adds m C P" and "\<And>c. C c \<Longrightarrow> \<not> is_getObject c"
  shows "triple not_probed m (\<lambda>_. not_probed) not_probed"
proof -
  have other: "\<not> is_notfound_probe e" if "only C P e" for e
  proof (cases e)
    case (Done c)
    with that assms(2) have "\<not> is_getObject c" by simp
    with Done show ?thesis by (cases c) simp_all
  next
    case (Failed c)
    with that assms(2) have "\<not> is_getObject c" by simp
    with Failed show ?thesis by (cases c) simp_all
  next
    case (Print m)
    then show ?thesis by simp
  qed
  have "triple (\<lambda>w. list_all (\<lambda>e. \<not> is_notfound_probe e) (trace w)) m
          (\<lambda>_ w. list_all (\<lambda>e. \<not> is_notfound_probe e) (trace w))
          (\<lambda>w. list_all (\<lambda>e. \<not> is_notfound_probe e) (trace w))"
    by (rule triple_adds[OF assms(1)]) (auto simp: list_all_iff other)
  then show ?thesis
    by (simp add: not_probed_def[abs_def])
qed

lemma triple_bind_probes:
  "(\<And>x. triple (\<lambda>w. True) (f x) Q E) \<Longrightarrow>
   triple I (bind (performAdditionalOperations env) f) Q E"
proof (rule triple_bind[where Q = "\<lambda>_ w. True"])
  show "triple I (performAdditionalOperations env) (\<lambda>_ w. True) E"
    by (rule tripleI) (auto dest: performAdditionalOperations_Return)
qed

lemma triple_say_all_True: "triple (\<lambda>w. True) (say_all ms) (\<lambda>_ w. True) E"
  by (rule tripleI) (auto simp: say_all_def)

lemma not_get_none: "no_call c \<Longrightarrow> \<not> is_getObject c"
  by (simp add: no_call_def)

lemma not_get_upload: "is_upload_call c \<Longrightarrow> \<not> is_getObject c"
  by (cases c) simp_all

lemma not_get_bucket: "is_bucket_call c \<Longrightarrow> \<not> is_getObject c"
  by (cases c) simp_all

lemma not_get_write: "is_write_call c \<Longrightarrow> \<not> is_getObject c"
  by (cases c) simp_all

lemma not_get_list: "is_list_call c \<Longrightarrow> \<not> is_getObject c"
  by (cases c) simp_all

lemma not_get_download: "is_download_call c \<Longrightarrow> \<not> is_getObject c"
  by (cases c) simp_all

lemma not_probed_triples:
  "triple not_probed (say m) (\<lambda>_. not_probed) not_probed"
  "triple not_probed (say_all ms) (\<lambda>_. not_probed) not_probed"
  "triple not_probed (faker_number_int env lo hi) (\<lambda>_. not_probed) not_probed"
  "triple not_probed (createBucketIfNotExists env) (\<lambda>_. not_probed) not_probed"
  "triple not_probed (runDemo_generate env k i files) (\<lambda>_. not_probed) not_probed"
  "triple not_probed (runDemo_upload env files) (\<lambda>_. not_probed) not_probed"
  "triple not_probed (listObjects env) (\<lambda>_. not_probed) not_probed"
  "triple not_probed (runDemo_download env files) (\<lambda>_. not_probed) not_probed"
proof -
  show "triple not_probed (say m) (\<lambda>_. not_probed) not_probed"
    by (rule triple_not_probed[OF adds_say[of any_msg _ no_call] not_get_none])
       (simp add: any_msg_def)
  show "triple not_probed (say_all ms) (\<lambda>_. not_probed) not_probed"
    by (rule triple_not_probed[OF adds_say_all[of any_msg _ no_call] not_get_none])
       (rule any_msg_all)
  show "triple not_probed (faker_number_int env lo hi) (\<lambda>_. not_probed) not_probed"
    by (rule triple_not_probed[OF adds_faker_number_int[of _ _ _ no_call any_msg] not_get_none])
  show "triple not_probed (createBucketIfNotExists env) (\<lambda>_. not_probed) not_probed"
    by (rule triple_not_probed[OF adds_createBucketIfNotExists not_get_bucket])
  show "triple not_probed (runDemo_generate env k i files) (\<lambda>_. not_probed) not_probed"
    by (rule triple_not_probed[OF adds_runDemo_generate not_get_write])
  show "triple not_probed (runDemo_upload env files) (\<lambda>_. not_probed) not_probed"
    by (rule triple_not_probed[OF adds_runDemo_upload not_get_upload])
  show "triple not_probed (listObjects env) (\<lambda>_. not_probed) not_probed"
    by (rule triple_not_probed[OF adds_listObjects not_get_list])
  show "triple not_probed (runDemo_download env files) (\<lambda>_. not_probed) not_probed"
    by (rule triple_not_probed[OF adds_runDemo_download not_get_download])
qed

lemma triple_runDemo_try_probe:
  "triple not_probed (runDemo_try env) (\<lambda>_ w. True) not_probed"
  unfolding runDemo_try_def
  by (intro triple_bind_probes inv_bind not_probed_triples triple_say_all_True)

subsection \<open>The exit status: which failures end the run\<close>

text \<open>
  A step that returns leaves the trace without a failed step call; a step that throws
  leaves a failed step call, or a failed delete of a local copy, in the trace.
\<close>

lemmas steps_defs = steps_clean_def step_or_delete_failed_def

lemma steps_basic:
  "triple steps_clean (ret x) (\<lambda>_. steps_clean) step_or_delete_failed"
  "triple steps_clean (say m) (\<lambda>_. steps_clean) step_or_delete_failed"
  "triple steps_clean (say_all ms) (\<lambda>_. steps_clean) step_or_delete_failed"
  "triple steps_clean (sleep n) (\<lambda>_. steps_clean) step_or_delete_failed"
  "triple steps_clean (faker_number_int env lo hi) (\<lambda>_. steps_clean) step_or_delete_failed"
  by (rule tripleI; auto simp: io_defs steps_defs list_ex_iff)+

lemma steps_generateRandomFile:
  "triple steps_clean (generateRandomFile env) (\<lambda>_. steps_clean) step_or_delete_failed"
  by (rule tripleI; auto simp: generateRandomFile_def io_defs steps_defs split: if_splits)

lemma steps_runDemo_generate:
  "triple steps_clean (runDemo_generate env n i files) (\<lambda>_. steps_clean) step_or_delete_failed"
proof (induction "n - i" arbitrary: i files)
  case 0
  then show ?case
    by (subst runDemo_generate_unfold) (simp add: steps_basic)
next
  case (Suc k)
  then have less: "i < n" and k: "k = n - (i + 1)"
    by simp_all
  have step: "triple steps_clean (runDemo_generate env n (i + 1) (files @ [f]))
                (\<lambda>_. steps_clean) step_or_delete_failed" for f
    by (rule Suc.hyps(1)[OF k])
  have "triple steps_clean
          (bind (generateRandomFile env) (\<lambda>file.
           bind (say (MsgFileLine (i + 1) (fileName file) (size_f file))) (\<lambda>_.
           runDemo_generate env n (i + 1) (files @ [file]))))
          (\<lambda>_. steps_clean) step_or_delete_failed"
    by (intro inv_bind steps_generateRandomFile steps_basic step)
  then show ?case
    by (subst runDemo_generate_unfold) (simp add: less)
qed

lemma steps_uploadFile:
  "triple steps_clean (uploadFile env nm p) (\<lambda>_. steps_clean) step_or_delete_failed"
  by (rule tripleI; auto simp: uploadFile_def io_defs steps_defs split: if_splits)

lemma steps_runDemo_upload:
  "triple steps_clean (runDemo_upload env files) (\<lambda>_. steps_clean) step_or_delete_failed"
proof (induction files)
  case Nil
  show ?case
    unfolding runDemo_upload_Nil by (rule steps_basic)
next
  case (Cons f files)
  show ?case
    unfolding runDemo_upload_Cons
    by (intro inv_bind steps_uploadFile steps_basic Cons.IH)
qed

lemma steps_listObjects:
  "triple steps_clean (listObjects env) (\<lambda>_. steps_clean) step_or_delete_failed"
  by (rule tripleI;
      auto simp: listObjects_def ret_def throw_def bind_def say_def say_all_def call_def
        invoke_def print_def listObjects_stream_def steps_defs list_ex_iff split: if_splits)

lemma steps_downloadFile:
  "triple steps_clean (downloadFile env nm) (\<lambda>_. steps_clean) step_or_delete_failed"
  by (rule tripleI;
      auto simp: downloadFile_def io_defs steps_defs split: if_splits
        simp del: effect.simps possible.simps)

lemma steps_runDemo_download:
  "triple steps_clean (runDemo_download env files) (\<lambda>_. steps_clean) step_or_delete_failed"
proof (induction files)
  case Nil
  show ?case
    unfolding runDemo_download_Nil by (rule steps_basic)
next
  case (Cons f files)
  show ?case
    unfolding runDemo_download_Cons
    by (intro inv_bind steps_downloadFile steps_basic Cons.IH)
qed

lemma steps_performAdditionalOperations:
  "triple steps_clean (performAdditionalOperations env) (\<lambda>_. steps_clean) step_or_delete_failed"
proof (rule tripleI)
  fix w x w'
  assume "steps_clean w" "performAdditionalOperations env w = (Return x, w')"
  then show "steps_clean w'"
    by (auto simp: performAdditionalOperations_def ret_def throw_def bind_def catch_def say_def
          call_def invoke_def print_def listObjects_stream_def steps_defs
        split: if_splits)
next
  fix w e w'
  assume "performAdditionalOperations env w = (Throw e, w')"
  then show "step_or_delete_failed w'"
    by (auto dest: performAdditionalOperations_Return)
qed

lemma runDemo_try_after_setup:
  "\<exists>rest. runDemo_try env =
            bind (say_all [MsgStarting, MsgRule]) (\<lambda>_.
            bind (createBucketIfNotExists env) (\<lambda>_. rest))
     \<and> triple steps_clean rest (\<lambda>_. steps_clean) step_or_delete_failed"
proof -
  define rest where "rest =
     bind (faker_number_int env 1 5) (\<lambda>numFiles.
     bind (say (MsgGenerating numFiles)) (\<lambda>_.
     bind (runDemo_generate env numFiles 0 []) (\<lambda>files.
     bind (say MsgBlank) (\<lambda>_.
     bind (runDemo_upload env files) (\<lambda>_.
     bind (say MsgBlank) (\<lambda>_.
     bind (listObjects env) (\<lambda>_.
     bind (say MsgBlank) (\<lambda>_.
     bind (runDemo_download env (take (min 2 (length files)) files)) (\<lambda>_.
     bind (say MsgBlank) (\<lambda>_.
     bind (performAdditionalOperations env) (\<lambda>_.
     say_all [MsgBlank, MsgCompleted, MsgHintDashboard, MsgHintAudit, MsgHintLog,
              MsgHintConsole])))))))))))"
  have "runDemo_try env =
          bind (say_all [MsgStarting, MsgRule]) (\<lambda>_.
          bind (createBucketIfNotExists env) (\<lambda>_. rest))"
    by (simp add: runDemo_try_def rest_def)
  moreover have "triple steps_clean rest (\<lambda>_. steps_clean) step_or_delete_failed"
    unfolding rest_def
    by (intro inv_bind steps_basic steps_runDemo_generate steps_runDemo_upload
        steps_listObjects steps_runDemo_download steps_performAdditionalOperations)
  ultimately show ?thesis
    by blast
qed

lemma only_bucket_not_step: "only is_bucket_call P e \<Longrightarrow> \<not> is_failed_step e"
proof (cases e)
  case (Failed c)
  assume "only is_bucket_call P e"
  with Failed have "is_bucket_call c" by simp
  with Failed show ?thesis by (cases c) simp_all
qed simp_all

lemma steps_clean_after_setup:
  assumes "trace w = []" and "createBucketIfNotExists env (banner w) = (Return (), w0)"
  shows "steps_clean w0"
proof -
  obtain es where es: "trace w0 = trace (banner w) @ es"
      "list_all (only is_bucket_call plain_msg) es"
    using addsD[OF adds_createBucketIfNotExists assms(2)] by blast
  have "\<not> list_ex is_failed_step es"
    using es(2) only_bucket_not_step by (auto simp: list_all_iff list_ex_iff)
  then show ?thesis
    using es(1) assms(1) by (simp add: steps_clean_def banner_def say_all_def)
qed

subsection \<open>When no call is made to fail\<close>















subsection \<open>The upload of the Go driver\<close>

text \<open>
  In the Go driver a failed delete after a completed upload is a warning:
  \<^verbatim>\<open>uploadFile\<close> still returns the size. Its upload loop logs an error of
  \<^verbatim>\<open>uploadFile\<close> (the line carries the error only; \<open>ErrUploading\<close> stands for it)
  and goes on with the next file, so it always comes to its end.
\<close>

lemma go_uploadFile_delete_failure:
  assumes "go_uploadFile env nm p w = (r, w')" and "trace w' = trace w @ es"
    and "Failed (UnlinkSync p) \<in> set es"
  shows "(\<exists>s. r = Return s)
         \<and> Done (FPutObject go_bucketName nm p) \<in> set es
         \<and> Print (WarnDeleteLocal nm (CallFailed (UnlinkSync p))) \<in> set es"
  using assms
  by (auto simp: go_uploadFile_def io_defs split: if_splits)

lemma go_runDemo_upload_Return: "go_runDemo_upload env names w = (r, w') \<Longrightarrow> r = Return ()"
  by (induction names arbitrary: w) auto

lemma go_uploadFile_env_nounlink:
  "fst (go_uploadFile env_nounlink ''report.txt'' ''uploads/report.txt''
         (w_fresh\<lparr>buckets := [go_bucketName \<mapsto> []], disk := [''uploads/report.txt'' \<mapsto> ''text'']\<rparr>))
   = Return 4"
  by (simp add: go_uploadFile_def io_defs fixture_defs)

section \<open>The claims\<close>

subsection \<open>C1: a failed bucket setup aborts the run\<close>

text \<open>
  C1. In every run in which \<open>createBucketIfNotExists\<close> raises an error, \<open>runDemo\<close>
  exits with status 1 and issues no \<open>fPutObject\<close>, \<open>listObjects\<close> or
  \<open>fGetObject\<close> call: the transfer calls of the trace are those that were there
  before the run. The error raised is the failure of the bucket-existence check or of
  the bucket creation (a failed policy call is caught inside); and whenever one of these
  two calls fails, \<open>createBucketIfNotExists\<close> does raise
  (\<open>createBucket_setup_failure_throws\<close>).
\<close>

theorem createBucket_failure_aborts_run:
  assumes "createBucketIfNotExists env (banner w) = (Throw e, w1)"
  shows "runDemo env w = (1, print (ErrDemoFailed e) w1)
         \<and> filter is_transfer (trace (snd (runDemo env w))) = filter is_transfer (trace w)
         \<and> (e = CallFailed (BucketExists bucketName)
              \<or> e = CallFailed (MakeBucket bucketName ''us-east-1''))"
proof -
  have run: "runDemo env w = (1, print (ErrDemoFailed e) w1)"
    using assms by (simp add: runDemo_def runDemo_try_def bind_def say_all_def banner_def)
  obtain es where es: "trace w1 = trace (banner w) @ es"
      "list_all (only is_bucket_call plain_msg) es"
    using addsD[OF adds_createBucketIfNotExists assms] by blast
  have "filter is_transfer es = []"
    using es(2) by (rule filter_only_none) (auto elim: is_bucket_call.elims)
  then have "filter is_transfer (trace (print (ErrDemoFailed e) w1)) = filter is_transfer (trace w)"
    using es(1) by (simp add: print_def say_all_def banner_def)
  then show ?thesis
    using run createBucket_throw_cause[OF assms] by simp
qed

theorem createBucket_failure_aborts_run_witness:
  "\<exists>e w1. createBucketIfNotExists env_down (banner w_fresh) = (Throw e, w1)
     \<and> fst (runDemo env_down w_fresh) = 1
     \<and> filter is_transfer (trace (snd (runDemo env_down w_fresh))) = []
     \<and> e = CallFailed (BucketExists bucketName)"
proof -
  let ?c = "createBucketIfNotExists env_down (banner w_fresh)"
  have thrown: "fst ?c = Throw (CallFailed (BucketExists bucketName))"
    by (simp add: js_defs io_defs fixture_defs banner_def)
  obtain w1 where c: "?c = (Throw (CallFailed (BucketExists bucketName)), w1)"
    using thrown by (cases ?c) simp
  have t: "trace w_fresh = []"
    by (simp add: w_fresh_def)
  note run = createBucket_failure_aborts_run[OF c]
  have "fst (runDemo env_down w_fresh) = 1"
    using conjunct1[OF run] by simp
  moreover have "filter is_transfer (trace (snd (runDemo env_down w_fresh))) = []"
    using conjunct1[OF conjunct2[OF run]] by (simp only: t filter.simps)
  ultimately show ?thesis
    using c by simp
qed

subsection \<open>C2: the generated files, before and after the upload\<close>

text \<open>
  C2, as amended. The number \<open>n\<close> of files is drawn from 1 to 5. When the generation
  loop returns, it has produced \<open>n\<close> file records and the upload directory holds what
  it held before together with the generated paths; these are exactly \<open>n\<close> files when
  the directory was empty and the drawn names are pairwise distinct. When afterwards
  every upload call returns success, none of the generated paths is left on the local
  disk.
\<close>

theorem generated_files_exist_then_uploaded:
  assumes draw: "faker_number_int env 1 5 w = (Return n, wa)"
      and gen: "runDemo_generate env n 0 [] (snd (say (MsgGenerating n) wa)) = (Return files, w1)"
  shows "1 \<le> n \<and> n \<le> 5 \<and> length files = n
         \<and> local_files w1 = local_files w \<union> set (map filePath files)
         \<and> (local_files w = {} \<and> distinct (map fileName files) \<longrightarrow> card (local_files w1) = n)
         \<and> (\<forall>w2. runDemo_upload env files (snd (say MsgBlank w1)) = (Return (), w2)
               \<longrightarrow> local_files w2 = local_files w - set (map filePath files))"
proof -
  have range: "1 \<le> n \<and> n \<le> 5"
    using faker_number_int_range[OF draw] by simp
  have wa: "disk wa = disk w"
    using draw by (auto simp: faker_number_int_def)
  from runDemo_generate_Return[OF gen]
  obtain news where news: "files = [] @ news" "length news = n - 0"
      "dom (disk w1) = dom (disk (snd (say (MsgGenerating n) wa))) \<union> set (map filePath news)"
      "map filePath news = map (path_join uploadDir) (map fileName news)"
    by blast
  have len: "length files = n"
    using news(1,2) by simp
  have dom1: "dom (disk w1) = dom (disk w) \<union> set (map filePath files)"
    using news(1,3) by (simp add: say_def print_def wa)
  have map_paths: "map filePath files = map (path_join uploadDir) (map fileName files)"
    using news(1,4) by simp
  have in_up: "in_dir uploadDir p" if "p \<in> set (map filePath files)" for p
  proof -
    from that have "p \<in> set (map (path_join uploadDir) (map fileName files))"
      by (simp only: map_paths)
    then obtain nm where "p = path_join uploadDir nm"
      by auto
    then show ?thesis
      by simp
  qed
  have loc1: "local_files w1 = local_files w \<union> set (map filePath files)"
    using dom1 in_up unfolding local_files_def by blast
  have card: "card (local_files w1) = n" if "local_files w = {}" "distinct (map fileName files)"
  proof -
    have "distinct (map filePath files)"
      unfolding map_paths using that(2) by (simp add: distinct_map inj_on_def)
    then have "card (set (map filePath files)) = length files"
      using distinct_card[of "map filePath files"] by simp
    then show ?thesis
      using loc1 that(1) len by simp
  qed
  have after: "local_files w2 = local_files w - set (map filePath files)"
    if "runDemo_upload env files (snd (say MsgBlank w1)) = (Return (), w2)" for w2
  proof -
    have "dom (disk w2) = dom (disk w1) - set (map filePath files)"
      using runDemo_upload_Return[OF that] by (simp add: say_def print_def)
    then show ?thesis
      using dom1 unfolding local_files_def by blast
  qed
  show ?thesis
    using range len loc1 card after by blast
qed

theorem generated_files_exist_then_uploaded_witness:
  "\<exists>wa files w1 w2.
      faker_number_int env_big 1 5 w_ready = (Return 1, wa)
      \<and> runDemo_generate env_big 1 0 [] (snd (say (MsgGenerating 1) wa)) = (Return files, w1)
      \<and> runDemo_upload env_big files (snd (say MsgBlank w1)) = (Return (), w2)
      \<and> length files = 1 \<and> local_files w_ready = {} \<and> distinct (map fileName files)
      \<and> card (local_files w1) = 1 \<and> local_files w2 = {}"
proof -
  let ?wa = "w_ready\<lparr>draws := 1\<rparr>"
  let ?f = "\<lparr>fileName = ''report.txt'', filePath = ''uploads/report.txt'', size_f = 61999\<rparr>"
  let ?g = "runDemo_generate env_big 1 0 [] (snd (say (MsgGenerating 1) ?wa))"
  let ?u = "runDemo_upload env_big [?f] (snd (say MsgBlank (snd ?g)))"
  have a1: "faker_number_int env_big 1 5 w_ready = (Return 1, ?wa)"
    by (simp add: faker_number_int_def fixture_defs)
  have "fst ?g = Return [?f]"
    by (simp add: runDemo_generate.simps js_defs io_defs fixture_defs length_lorem_typical)
  then have g: "?g = (Return [?f], snd ?g)"
    by (metis prod.collapse)
  have "fst ?u = Return ()"
    by (simp add: runDemo_generate.simps js_defs io_defs fixture_defs length_lorem_typical)
  then have u: "?u = (Return (), snd ?u)"
    by (metis prod.collapse)
  have e: "local_files w_ready = {}"
    by (simp add: local_files_def fixture_defs)
  note inst = generated_files_exist_then_uploaded[OF a1 g]
  have c: "card (local_files (snd ?g)) = 1"
    using inst e by simp
  have "local_files (snd ?u) = local_files w_ready - set (map filePath [?f])"
    using inst u by blast
  then have z: "local_files (snd ?u) = {}"
    using e by simp
  show ?thesis
    using a1 g u c z e
    by (intro exI[of _ ?wa] exI[of _ "[?f]"] exI[of _ "snd ?g"] exI[of _ "snd ?u"]) simp
qed

text \<open>
  C2 as stated fails: two draws of the same name leave one file in the upload directory
  for \<open>n = 2\<close>, and a file left in the directory by an earlier run makes two files
  for \<open>n = 1\<close>.
\<close>

theorem exactly_n_local_files_counterexample:
  "(\<exists>wa files w1.
      faker_number_int env_dup 1 5 w_fresh = (Return 2, wa)
      \<and> runDemo_generate env_dup 2 0 [] (snd (say (MsgGenerating 2) wa)) = (Return files, w1)
      \<and> local_files w_fresh = {} \<and> card (local_files w1) = 1)
   \<and> (\<exists>wa files w1.
      faker_number_int env_big 1 5 w_leftover = (Return 1, wa)
      \<and> runDemo_generate env_big 1 0 [] (snd (say (MsgGenerating 1) wa)) = (Return files, w1)
      \<and> card (local_files w1) = 2)"
proof -
  let ?wa = "w_fresh\<lparr>draws := 1\<rparr>"
  let ?g = "runDemo_generate env_dup 2 0 [] (snd (say (MsgGenerating 2) ?wa))"
  have a1: "faker_number_int env_dup 1 5 w_fresh = (Return 2, ?wa)"
    by (simp add: faker_number_int_def fixture_defs)
  have a2: "\<exists>files. fst ?g = Return files"
    by (simp add: runDemo_generate.simps js_defs io_defs fixture_defs)
  then obtain files w1 where g: "?g = (Return files, w1)"
    by (cases ?g) auto
  have "dom (disk (snd ?g)) = {''uploads/a.txt''}"
    by (simp add: runDemo_generate.simps js_defs io_defs fixture_defs)
  then have a3: "dom (disk w1) = {''uploads/a.txt''}"
    by (simp only: g snd_conv)
  have "local_files w1 = {''uploads/a.txt''}"
    unfolding local_files_def a3 by (auto simp: in_dir_def js_defs)
  then have a4: "card (local_files w1) = 1"
    by simp
  have A: "\<exists>wa files w1.
      faker_number_int env_dup 1 5 w_fresh = (Return 2, wa)
      \<and> runDemo_generate env_dup 2 0 [] (snd (say (MsgGenerating 2) wa)) = (Return files, w1)
      \<and> local_files w_fresh = {} \<and> card (local_files w1) = 1"
    using a1 g a4 local_files_w_fresh by blast
  let ?wb = "w_leftover\<lparr>draws := 1\<rparr>"
  let ?h = "runDemo_generate env_big 1 0 [] (snd (say (MsgGenerating 1) ?wb))"
  have b1: "faker_number_int env_big 1 5 w_leftover = (Return 1, ?wb)"
    by (simp add: faker_number_int_def fixture_defs)
  have b2: "\<exists>files. fst ?h = Return files"
    by (simp add: runDemo_generate.simps js_defs io_defs fixture_defs)
  then obtain files' w1' where h: "?h = (Return files', w1')"
    by (cases ?h) auto
  have "dom (disk (snd ?h)) = {''uploads/old.txt'', ''uploads/report.txt''}"
    by (auto simp: runDemo_generate.simps js_defs io_defs fixture_defs)
  then have b3: "dom (disk w1') = {''uploads/old.txt'', ''uploads/report.txt''}"
    by (simp only: h snd_conv)
  have "local_files w1' = {''uploads/old.txt'', ''uploads/report.txt''}"
    unfolding local_files_def b3 by (auto simp: in_dir_def js_defs)
  then have "card (local_files w1') = 2"
    by simp
  then have B: "\<exists>wa files w1.
      faker_number_int env_big 1 5 w_leftover = (Return 1, wa)
      \<and> runDemo_generate env_big 1 0 [] (snd (say (MsgGenerating 1) wa)) = (Return files, w1)
      \<and> card (local_files w1) = 2"
    using b1 h by blast
  show ?thesis
    using A B by (rule conjI)
qed

subsection \<open>C3: the size of a generated file\<close>

text \<open>
  C3 does not hold of \<open>generateRandomFile\<close>: the number drawn from 1000 to 50000 (the
  comment beside it reads "1KB to 50KB") only fixes the number of lorem paragraphs, one
  per 100 of it, and the bytes written are the bytes of that text. With the largest draw
  and paragraphs of 123 characters the file has 61999 bytes; with the smallest draw and
  paragraphs of 44 characters it has 449.
\<close>

theorem generated_size_outside_range:
  "(\<exists>f w'. generateRandomFile env_big w_fresh = (Return f, w')
      \<and> disk w' (filePath f) = Some (lorem_typical 500)
      \<and> size_f f = 61999 \<and> length (lorem_typical 500) = 61999
      \<and> \<not> length (lorem_typical 500) \<le> 50000)
   \<and> (\<exists>f w'. generateRandomFile env_small w_fresh = (Return f, w')
      \<and> disk w' (filePath f) = Some (lorem_short 10)
      \<and> size_f f = 449 \<and> length (lorem_short 10) = 449
      \<and> \<not> 1000 \<le> length (lorem_short 10))"
proof (rule conjI)
  show "\<exists>f w'. generateRandomFile env_big w_fresh = (Return f, w')
      \<and> disk w' (filePath f) = Some (lorem_typical 500)
      \<and> size_f f = 61999 \<and> length (lorem_typical 500) = 61999
      \<and> \<not> length (lorem_typical 500) \<le> 50000"
    by (simp add: generateRandomFile_def io_defs fixture_defs uploadDir_def path_join_def
        math_ceil_div_def length_lorem_typical)
  show "\<exists>f w'. generateRandomFile env_small w_fresh = (Return f, w')
      \<and> disk w' (filePath f) = Some (lorem_short 10)
      \<and> size_f f = 449 \<and> length (lorem_short 10) = 449
      \<and> \<not> 1000 \<le> length (lorem_short 10)"
    by (simp add: generateRandomFile_def io_defs fixture_defs uploadDir_def path_join_def
        math_ceil_div_def length_lorem_short)
qed

subsection \<open>C4: which files are downloaded\<close>

text \<open>
  C4, as amended. In every run that ends with status 0 (the \<open>n\<close> uploads, the listing
  and the downloads have all succeeded), the files downloaded are exactly the first
  \<open>min(2, n)\<close> of the uploaded files, in upload order.
\<close>

theorem downloads_first_two_uploaded:
  assumes "runDemo env w = (0, w')"
  shows "\<exists>names. uploaded (trace w') = uploaded (trace w) @ names
           \<and> downloaded (trace w') = downloaded (trace w) @ take (min 2 (length names)) names"
proof -
  have "runDemo_try env w = (Return (), w')"
    using assms by (auto simp: runDemo_def split: prod.splits result.splits)
  from runDemo_try_Return[OF this]
  obtain w0 n wa files w1 w2 objs w3 w4 w5 where
    p1: "createBucketIfNotExists env (banner w) = (Return (), w0)"
    and p2: "faker_number_int env 1 5 w0 = (Return n, wa)"
    and p3: "runDemo_generate env n 0 [] (snd (say (MsgGenerating n) wa)) = (Return files, w1)"
    and p4: "runDemo_upload env files (snd (say MsgBlank w1)) = (Return (), w2)"
    and p5: "listObjects env (snd (say MsgBlank w2)) = (Return objs, w3)"
    and p6: "runDemo_download env (take (min 2 (length files)) files) (snd (say MsgBlank w3))
              = (Return (), w4)"
    and p7: "performAdditionalOperations env (snd (say MsgBlank w4)) = (Return (), w5)"
    and fin: "w' = closing w5"
    by blast
  note s1 = shown_createBucket[OF p1]
  note s2 = shown_faker_number_int[OF p2]
  note s3 = shown_generate[OF p3]
  note s4 = runDemo_upload_Return[OF p4]
  note s5 = shown_listObjects[OF p5]
  note s6 = runDemo_download_Return[OF p6]
  note s7 = shown_probes[OF p7]
  have "uploaded (trace wa) = uploaded (trace w)" "downloaded (trace wa) = downloaded (trace w)"
    using s1 s2 by simp_all
  then have "uploaded (trace w1) = uploaded (trace w)" "downloaded (trace w1) = downloaded (trace w)"
    using s3 by (simp_all add: say_def print_def shown_defs)
  then have "uploaded (trace w2) = uploaded (trace w) @ map fileName files"
    "downloaded (trace w2) = downloaded (trace w)"
    using s4 by (simp_all add: say_def print_def shown_defs)
  then have "uploaded (trace w3) = uploaded (trace w) @ map fileName files"
    "downloaded (trace w3) = downloaded (trace w)"
    using s5 by (simp_all add: say_def print_def shown_defs)
  then have "uploaded (trace w4) = uploaded (trace w) @ map fileName files"
    "downloaded (trace w4) =
       downloaded (trace w) @ map fileName (take (min 2 (length files)) files)"
    using s6 by (simp_all add: say_def print_def shown_defs)
  then have up: "uploaded (trace w') = uploaded (trace w) @ map fileName files"
    and down: "downloaded (trace w') =
       downloaded (trace w) @ map fileName (take (min 2 (length files)) files)"
    using s7 by (simp_all add: fin say_def print_def shown_defs closing_def say_all_def)
  show ?thesis
    using up down by (intro exI[of _ "map fileName files"]) (simp add: take_map)
qed

theorem downloads_first_two_uploaded_witness:
  "\<exists>w'. runDemo env_three w_fresh = (0, w')
     \<and> uploaded (trace w') = [''alpha.txt'', ''beta.txt'', ''gamma.txt'']
     \<and> downloaded (trace w') = [''alpha.txt'', ''beta.txt'']"
proof -
  obtain w' where run: "runDemo env_three w_fresh = (0, w')"
    and up: "uploaded (trace w') = [''alpha.txt'', ''beta.txt'', ''gamma.txt'']"
    using run_three by blast
  obtain names where n: "uploaded (trace w') = uploaded (trace w_fresh) @ names"
    "downloaded (trace w') = downloaded (trace w_fresh) @ take (min 2 (length names)) names"
    using downloads_first_two_uploaded[OF run] by blast
  have "names = [''alpha.txt'', ''beta.txt'', ''gamma.txt'']"
    using n(1) up by (simp add: w_fresh_def shown_defs)
  then have "downloaded (trace w') = [''alpha.txt'', ''beta.txt'']"
    using n(2) by (simp add: w_fresh_def shown_defs)
  with run up show ?thesis
    by blast
qed

text \<open>
  C4 as stated fails: a run that uploads its one file and whose listing then fails ends
  with status 1 before the download loop, so it downloads no file where \<open>min(2, 1) = 1\<close>.
\<close>

theorem downloads_counterexample:
  "\<exists>w'. runDemo env_nolist w_fresh = (1, w')
     \<and> uploaded (trace w') = [''report.txt'']
     \<and> downloaded (trace w') = []
     \<and> length (downloaded (trace w')) \<noteq> min 2 (length (uploaded (trace w')))"
proof -
  obtain w' where "runDemo env_nolist w_fresh = (1, w')"
    "uploaded (trace w') = [''report.txt'']" "downloaded (trace w') = []"
    using run_nolist by blast
  then show ?thesis
    by (intro exI[of _ w']) simp
qed

subsection \<open>C5: a failed delete of the local copy\<close>

text \<open>
  C5 does not hold of \<^verbatim>\<open>demo-app.js\<close>. There \<^verbatim>\<open>fs.unlinkSync\<close> stands inside the
  \<^verbatim>\<open>try\<close> of \<open>uploadFile\<close>, whose \<^verbatim>\<open>catch\<close> logs "Error uploading" and throws
  again, and \<open>runDemo\<close> exits with status 1. In the run below every call succeeds but
  the delete: the upload completes, the delete fails, and the run ends at once with
  status 1, before the listing. The Go driver does what C5 says
  (\<open>go_uploadFile_delete_failure\<close>, \<open>go_runDemo_upload_Return\<close>).
\<close>

theorem delete_failure_aborts_run:
  "fst (runDemo env_nounlink w_fresh) = 1
   \<and> drop 15 (trace (snd (runDemo env_nounlink w_fresh))) =
       [Done (FPutObject bucketName ''report.txt'' ''uploads/report.txt''),
        Print (MsgUploaded ''report.txt''),
        Failed (UnlinkSync ''uploads/report.txt''),
        Print (ErrUploading ''report.txt'' (CallFailed (UnlinkSync ''uploads/report.txt''))),
        Print (ErrDemoFailed (CallFailed (UnlinkSync ''uploads/report.txt'')))]"
  by (simp add: runDemo_generate.simps js_defs io_defs fixture_defs length_lorem_typical)

subsection \<open>C6: the local copy is deleted only after its upload\<close>

text \<open>
  C6. In every run, started with an empty trace: each attempt to delete a local path
  comes directly after the success message of an \<open>fPutObject\<close> call for that path that
  completed without error (\<open>deletes_guarded\<close>), and once an \<open>fPutObject\<close> call has
  failed the driver issues no further call, so it deletes nothing
  (\<open>quiet_after_failed_put\<close>).
\<close>

theorem local_copy_deleted_only_after_upload:
  assumes "trace w = []"
  shows "deletes_guarded (trace (snd (runDemo env w)))
         \<and> quiet_after_failed_put (trace (snd (runDemo env w)))"
proof -
  have start: "upload_inv w"
    using assms by (simp add: upload_inv_def deletes_guarded_def no_failed_put_def)
  obtain r w' where run: "runDemo_try env w = (r, w')"
    by (cases "runDemo_try env w")
  show ?thesis
  proof (cases r)
    case (Return u)
    have "upload_inv w'"
      using triple_Return[OF triple_runDemo_try start run[unfolded Return]] .
    then show ?thesis
      using run Return by (simp add: runDemo_def upload_inv_def no_failed_put_quiet)
  next
    case (Throw e)
    have "upload_exc w'"
      using triple_Throw[OF triple_runDemo_try start run[unfolded Throw]] .
    then show ?thesis
      using run Throw
      by (simp add: runDemo_def upload_exc_def print_def deletes_guarded_snoc
          quiet_after_failed_put_print)
  qed
qed

theorem local_copy_deleted_only_after_upload_witness:
  "trace w_fresh = []
   \<and> deletes_guarded (trace (snd (runDemo env_three w_fresh)))
   \<and> quiet_after_failed_put (trace (snd (runDemo env_three w_fresh)))
   \<and> deleted (trace (snd (runDemo env_three w_fresh)))
       = [''uploads/alpha.txt'', ''uploads/beta.txt'', ''uploads/gamma.txt'']
   \<and> deletes_guarded (trace (snd (runDemo env_noput w_fresh)))
   \<and> quiet_after_failed_put (trace (snd (runDemo env_noput w_fresh)))
   \<and> list_ex is_failed_put (trace (snd (runDemo env_noput w_fresh)))
   \<and> filter (\<lambda>e. unlink_path e \<noteq> None) (trace (snd (runDemo env_noput w_fresh))) = []"
proof -
  have t: "trace w_fresh = []"
    by (simp add: w_fresh_def)
  obtain w3 where r3: "runDemo env_three w_fresh = (0, w3)"
    and d3: "deleted (trace w3) = [''uploads/alpha.txt'', ''uploads/beta.txt'', ''uploads/gamma.txt'']"
    using run_three by blast
  obtain w1 where r1: "runDemo env_noput w_fresh = (1, w1)"
    and f1: "list_ex is_failed_put (trace w1)"
    and u1: "filter (\<lambda>e. unlink_path e \<noteq> None) (trace w1) = []"
    using run_noput by blast
  show ?thesis
    using t local_copy_deleted_only_after_upload[OF t, of env_three]
      local_copy_deleted_only_after_upload[OF t, of env_noput] d3 f1 u1
    by (simp add: r3 r1)
qed

subsection \<open>C7: the request for a key that is not there\<close>

text \<open>
  C7, as amended. \<open>performAdditionalOperations\<close> never throws. When the request for
  \<^verbatim>\<open>non-existent-file.txt\<close> fails, the driver logs the message of its catch block; when
  it does not fail, nothing is logged for it. In both cases the driver goes on with the
  remaining probe, the bucket location, and logs its outcome (\<open>probe_continues\<close>); the
  request is reached whenever the listing by prefix before it succeeded. A run whose
  trace holds the request, whatever its outcome, ends with status 0.
\<close>

theorem notfound_probe_never_aborts:
  "(\<forall>r w'. performAdditionalOperations env w = (r, w') \<longrightarrow>
      r = Return ()
      \<and> (\<exists>es. trace w' = trace w @ es \<and> probe_continues es
            \<and> (Done (ListObjects bucketName ''sample'' False) \<in> set es
                 \<longrightarrow> list_ex is_notfound_probe es)))
   \<and> (trace w = [] \<and> list_ex is_notfound_probe (trace (snd (runDemo env w)))
        \<longrightarrow> fst (runDemo env w) = 0)"
proof (intro conjI allI impI)
  fix r w'
  assume p: "performAdditionalOperations env w = (r, w')"
  show "r = Return ()"
    using p by (rule performAdditionalOperations_Return)
  show "\<exists>es. trace w' = trace w @ es \<and> probe_continues es
          \<and> (Done (ListObjects bucketName ''sample'' False) \<in> set es
               \<longrightarrow> list_ex is_notfound_probe es)"
    using p by (rule performAdditionalOperations_trace)
next
  assume a: "trace w = [] \<and> list_ex is_notfound_probe (trace (snd (runDemo env w)))"
  then have start: "not_probed w"
    by (simp add: not_probed_def)
  obtain r w' where run: "runDemo_try env w = (r, w')"
    by (cases "runDemo_try env w")
  show "fst (runDemo env w) = 0"
  proof (cases r)
    case (Return u)
    with run show ?thesis by (simp add: runDemo_def)
  next
    case (Throw e)
    have "not_probed w'"
      using triple_Throw[OF triple_runDemo_try_probe start run[unfolded Throw]] .
    then have "\<not> list_ex is_notfound_probe (trace (snd (runDemo env w)))"
      using run Throw by (simp add: runDemo_def print_def not_probed_def list_all_iff list_ex_iff)
    with a show ?thesis by simp
  qed
qed

theorem notfound_probe_never_aborts_witness:
  "fst (performAdditionalOperations env_big w_ready) = Return ()
   \<and> drop 7 (trace (snd (performAdditionalOperations env_big w_ready))) =
       [Failed (GetObject bucketName ''non-existent-file.txt''), Print MsgAttempted404,
        Done (GetBucketLocation bucketName), Print MsgLocation]
   \<and> fst (performAdditionalOperations env_big w_404) = Return ()
   \<and> trace w_fresh = []
   \<and> list_ex is_notfound_probe (trace (snd (runDemo env_big w_fresh)))
   \<and> fst (runDemo env_big w_fresh) = 0"
proof -
  have t: "trace w_fresh = []"
    by (simp add: w_fresh_def)
  obtain w' where run: "runDemo env_big w_fresh = (0, w')"
    and probed: "list_ex is_notfound_probe (trace w')"
    using run_big by blast
  have p: "list_ex is_notfound_probe (trace (snd (runDemo env_big w_fresh)))"
    using probed by (simp add: run)
  have zero: "fst (runDemo env_big w_fresh) = 0"
    using notfound_probe_never_aborts[of env_big w_fresh] t p by blast
  have r1: "fst (performAdditionalOperations env_big w_ready) = Return ()"
    using notfound_probe_never_aborts[of env_big w_ready] by (metis prod.collapse)
  have r2: "fst (performAdditionalOperations env_big w_404) = Return ()"
    using notfound_probe_never_aborts[of env_big w_404] by (metis prod.collapse)
  have tr: "drop 7 (trace (snd (performAdditionalOperations env_big w_ready))) =
       [Failed (GetObject bucketName ''non-existent-file.txt''), Print MsgAttempted404,
        Done (GetBucketLocation bucketName), Print MsgLocation]"
    by (simp add: js_defs io_defs fixture_defs)
  show ?thesis
    using r1 tr r2 t p zero by blast
qed

text \<open>
  C7 as stated fails where the request does not raise an error (the bucket holds an
  object under that key): the request is followed at once by the bucket-location call,
  and no message is logged for it.
\<close>

theorem notfound_probe_counterexample:
  "drop 7 (trace (snd (performAdditionalOperations env_big w_404))) =
     [Done (GetObject bucketName ''non-existent-file.txt''),
      Done (GetBucketLocation bucketName), Print MsgLocation]
   \<and> Print MsgAttempted404 \<notin> set (trace (snd (performAdditionalOperations env_big w_404)))"
  by (simp add: js_defs io_defs fixture_defs)

subsection \<open>C8: the exit status\<close>

text \<open>
  C8, as amended. The exit status is 0 or 1. In every run in which the bucket setup
  succeeds and no delete of a local copy fails, it is 0 exactly when no call of the
  generation, the uploads, the listing and the downloads fails (\<open>step_call\<close>), and 1
  when one of them fails; what happens to the policy call and to the probes of
  \<open>performAdditionalOperations\<close> does not enter. The run in which the delete of a
  local copy fails is left out here: it is the run of C5 (\<open>run_nounlink\<close>).
\<close>

theorem exit_status_after_setup:
  assumes "trace w = []"
      and "createBucketIfNotExists env (banner w) = (Return (), w0)"
      and "\<not> list_ex is_failed_unlink (trace (snd (runDemo env w)))"
  shows "(fst (runDemo env w) = 0 \<or> fst (runDemo env w) = 1)
     \<and> (fst (runDemo env w) = 0
          \<longleftrightarrow> \<not> list_ex is_failed_step (trace (snd (runDemo env w))))"
proof -
  obtain rest where split: "runDemo_try env =
            bind (say_all [MsgStarting, MsgRule]) (\<lambda>_.
            bind (createBucketIfNotExists env) (\<lambda>_. rest))"
    and steps: "triple steps_clean rest (\<lambda>_. steps_clean) step_or_delete_failed"
    using runDemo_try_after_setup by blast
  have tried: "runDemo_try env w = rest w0"
    using assms(2) unfolding split by (simp add: bind_def say_all_def banner_def)
  have clean0: "steps_clean w0"
    using assms(1,2) by (rule steps_clean_after_setup)
  obtain r w' where rw: "rest w0 = (r, w')"
    by (cases "rest w0")
  show ?thesis
  proof (cases r)
    case (Return u)
    have "steps_clean w'"
      using triple_Return[OF steps clean0 rw[unfolded Return]] .
    moreover have "runDemo env w = (0, w')"
      using tried rw Return by (simp add: runDemo_def)
    ultimately show ?thesis
      by (simp add: steps_clean_def)
  next
    case (Throw e)
    have run: "runDemo env w = (1, print (ErrDemoFailed e) w')"
      using tried rw Throw by (simp add: runDemo_def)
    have "step_or_delete_failed w'"
      using triple_Throw[OF steps clean0 rw[unfolded Throw]] .
    moreover have "\<not> list_ex is_failed_unlink (trace w')"
      using assms(3) run by (simp add: print_def)
    ultimately have "list_ex is_failed_step (trace w')"
      by (auto simp: step_or_delete_failed_def list_ex_iff)
    then show ?thesis
      using run by (simp add: print_def)
  qed
qed

theorem exit_status_after_setup_witness:
  "trace w_fresh = []
   \<and> (\<exists>w0. createBucketIfNotExists env_big (banner w_fresh) = (Return (), w0))
   \<and> \<not> list_ex is_failed_unlink (trace (snd (runDemo env_big w_fresh)))
   \<and> fst (runDemo env_big w_fresh) = 0
   \<and> \<not> list_ex is_failed_step (trace (snd (runDemo env_big w_fresh)))
   \<and> (\<exists>w0. createBucketIfNotExists env_noput (banner w_fresh) = (Return (), w0))
   \<and> \<not> list_ex is_failed_unlink (trace (snd (runDemo env_noput w_fresh)))
   \<and> fst (runDemo env_noput w_fresh) = 1
   \<and> list_ex is_failed_step (trace (snd (runDemo env_noput w_fresh)))"
proof -
  have t: "trace w_fresh = []"
    by (simp add: w_fresh_def)
  obtain w0 where ok: "createBucketIfNotExists env_big (banner w_fresh) = (Return (), w0)"
    using setup_big by (cases "createBucketIfNotExists env_big (banner w_fresh)") auto
  obtain w0' where ok': "createBucketIfNotExists env_noput (banner w_fresh) = (Return (), w0')"
    using setup_noput by (cases "createBucketIfNotExists env_noput (banner w_fresh)") auto
  have big: "fst (runDemo env_big w_fresh) = 0"
      "\<not> list_ex is_failed_unlink (trace (snd (runDemo env_big w_fresh)))"
    using run_big by auto
  have noput: "fst (runDemo env_noput w_fresh) = 1"
      "\<not> list_ex is_failed_unlink (trace (snd (runDemo env_noput w_fresh)))"
    using run_noput by auto
  have "\<not> list_ex is_failed_step (trace (snd (runDemo env_big w_fresh)))"
    using exit_status_after_setup[OF t ok big(2)] big(1) by simp
  moreover have "list_ex is_failed_step (trace (snd (runDemo env_noput w_fresh)))"
    using exit_status_after_setup[OF t ok' noput(2)] noput(1) by simp
  ultimately show ?thesis
    using t ok ok' big noput by blast
qed

text \<open>
  C8 as stated fails: with the bucket setup succeeding and the upload call failing,
  the run ends with status 1.
\<close>

theorem exit_status_counterexample:
  "\<exists>w0 w'. createBucketIfNotExists env_noput (banner w_fresh) = (Return (), w0)
     \<and> runDemo env_noput w_fresh = (1, w')
     \<and> list_ex is_failed_put (trace w')"
proof -
  obtain w0 where "createBucketIfNotExists env_noput (banner w_fresh) = (Return (), w0)"
    using setup_noput by (cases "createBucketIfNotExists env_noput (banner w_fresh)") auto
  then show ?thesis
    using run_noput by blast
qed

subsection \<open>C9: the scenario with three files\<close>




subsection \<open>C10: the size a generated file reports\<close>

text \<open>
  C10. Whenever \<open>generateRandomFile\<close> returns, the \<open>size\<close> it reports is the length
  of the content it wrote to disk. That content is the lorem text of
  \<open>ceil(d / 100)\<close> paragraphs, where \<open>d\<close> is the integer drawn from 1000 to 50000;
  \<open>d\<close> enters the result through the number of paragraphs only. (That the draw is
  uniform is a property of faker's generator and not part of the model; the theorem
  gives the range.) The witness is a draw of \<open>d = 50000\<close> whose file has 61999 bytes.
\<close>

theorem generateRandomFile_size:
  assumes "generateRandomFile env w = (Return f, w')"
  shows "let d = 1000 + rand_nat env (draws w + 1) mod 49001;
             content = rand_paragraphs env (draws w + 2) (math_ceil_div d 100)
         in 1000 \<le> d \<and> d \<le> 50000 \<and> int (math_ceil_div d 100) = \<lceil>real d / 100\<rceil>
            \<and> disk w' (filePath f) = Some content \<and> size_f f = length content
            \<and> trace w' = trace w @ [Done (WriteFileSync (filePath f) content)]"
  using assms math_ceil_div_ceiling[of 100]
  by (auto simp: generateRandomFile_def io_defs Let_def split: if_splits)

theorem generateRandomFile_size_witness:
  "(\<exists>f w'. generateRandomFile env_big w_fresh = (Return f, w')
      \<and> disk w' (filePath f) = Some (lorem_typical 500)
      \<and> size_f f = length (lorem_typical 500)
      \<and> size_f f = 61999)
   \<and> 1000 + rand_nat env_big (draws w_fresh + 1) mod 49001 = 50000"
proof -
  let ?g = "generateRandomFile env_big w_fresh"
  have "\<exists>f. fst ?g = Return f"
    by (simp add: generateRandomFile_def io_defs fixture_defs)
  then obtain f w' where run: "?g = (Return f, w')"
    by (cases ?g) auto
  have d: "1000 + rand_nat env_big (draws w_fresh + 1) mod 49001 = 50000"
    by (simp add: env_big_def)
  have k: "math_ceil_div 50000 100 = 500"
    by (simp add: math_ceil_div_def)
  have "disk w' (filePath f) = Some (lorem_typical 500) \<and> size_f f = length (lorem_typical 500)"
    using generateRandomFile_size[OF run] d k
    by (simp add: Let_def env_big_def w_fresh_def)
  then show ?thesis
    using run d by (auto simp: length_lorem_typical)
qed

end
